theory Spec2Isabelle
  imports Complex_Main "HOL-Library.Sublist" "HOL-Library.AList" "HOL-Library.Log_Nat"
begin

section \<open>Python values shared by the models\<close>

text \<open>
  Exceptions are values: a function of the source that can raise returns
  \<open>py_error + 'a\<close>, with \<open>Inl\<close> for the exception.
\<close>

datatype py_error =
    ZeroDivisionError
  | IndexError
  | KeyError
  | ValueError
  | TypeError
  | OverflowError
  | AttributeError
  | RequestException
  | OtherException

text \<open>
  Python's slices \<open>xs[:k]\<close> and \<open>xs[k:]\<close> for an integer \<open>k\<close>: a negative bound
  counts from the end, and both ends are clipped to the sequence.
\<close>

definition py_slice_to :: "int \<Rightarrow> 'a list \<Rightarrow> 'a list" where
  "py_slice_to k xs = (if k < 0 then take (nat (int (length xs) + k)) xs else take (nat k) xs)"

definition py_slice_from :: "int \<Rightarrow> 'a list \<Rightarrow> 'a list" where
  "py_slice_from k xs = (if k < 0 then drop (nat (int (length xs) + k)) xs else drop (nat k) xs)"


section \<open>ui/components.py: Menu\<close>

text \<open>
  The fields of \<open>Menu\<close> that the selection methods read and write. The index is a
  Python integer; \<open>%\<close> is Python's floored modulo, which is \<open>mod\<close> on \<open>int\<close>, and a zero
  divisor raises.
\<close>

record menu =
  options :: "string list"
  selected_index :: int
  animation_frame :: int

definition select_next :: "menu \<Rightarrow> py_error + menu" where
  "select_next m =
     (if length (options m) = 0 then Inl ZeroDivisionError
      else Inr (m\<lparr>selected_index := (selected_index m + 1) mod int (length (options m))\<rparr>))"

definition select_previous :: "menu \<Rightarrow> py_error + menu" where
  "select_previous m =
     (if length (options m) = 0 then Inl ZeroDivisionError
      else Inr (m\<lparr>selected_index := (selected_index m - 1) mod int (length (options m))\<rparr>))"

definition get_selected :: "menu \<Rightarrow> py_error + string" where
  "get_selected m =
     (let n = int (length (options m));
          j = (if selected_index m < 0 then n + selected_index m else selected_index m)
      in if 0 \<le> j \<and> j < n then Inr (options m ! nat j) else Inl IndexError)"


section \<open>ui/input\_field.py: InputField\<close>

datatype key =
    KEY_CTRL | KEY_GUI | KEY_SHIFT
  | KEY_LEFT | KEY_RIGHT | KEY_HOME | KEY_END | KEY_BACKSPACE | KEY_DELETE
  | KEY_A | KEY_B | KEY_C | KEY_D | KEY_E | KEY_F | KEY_G | KEY_H | KEY_I
  | KEY_J | KEY_K | KEY_L | KEY_M | KEY_N | KEY_O | KEY_P | KEY_Q | KEY_R
  | KEY_S | KEY_T | KEY_U | KEY_V | KEY_W | KEY_X | KEY_Y | KEY_Z
  | KEY_0 | KEY_1 | KEY_2 | KEY_3 | KEY_4 | KEY_5 | KEY_6 | KEY_7 | KEY_8 | KEY_9
  | KEY_MINUS | KEY_EQUALS | KEY_LEFTBRACKET | KEY_RIGHTBRACKET | KEY_SEMICOLON
  | KEY_QUOTE | KEY_BACKSLASH | KEY_COMMA | KEY_PERIOD | KEY_SLASH | KEY_SPACE
  | KEY_COLON

text \<open>
  What \<open>pyxel\<close> reports in one frame: \<open>btn\<close> (key held) and \<open>btnp\<close> (key pressed in
  this frame).
\<close>

record pyxel_input =
  btn :: "key \<Rightarrow> bool"
  btnp :: "key \<Rightarrow> bool"

text \<open>
  The system clipboard behind \<open>pyperclip\<close>: it holds a text, or its calls raise.
\<close>

datatype clipboard = Clipboard string | ClipboardError

record input_field =
  text_of :: string
  cursor_position :: int
  max_length :: int
  active :: bool
  cursor_blink :: int
  clipboard_available :: bool

definition key_map :: "(key \<times> char) list" where
  "key_map =
    [(KEY_A, CHR ''a''), (KEY_B, CHR ''b''), (KEY_C, CHR ''c''), (KEY_D, CHR ''d''),
     (KEY_E, CHR ''e''), (KEY_F, CHR ''f''), (KEY_G, CHR ''g''), (KEY_H, CHR ''h''),
     (KEY_I, CHR ''i''), (KEY_J, CHR ''j''), (KEY_K, CHR ''k''), (KEY_L, CHR ''l''),
     (KEY_M, CHR ''m''), (KEY_N, CHR ''n''), (KEY_O, CHR ''o''), (KEY_P, CHR ''p''),
     (KEY_Q, CHR ''q''), (KEY_R, CHR ''r''), (KEY_S, CHR ''s''), (KEY_T, CHR ''t''),
     (KEY_U, CHR ''u''), (KEY_V, CHR ''v''), (KEY_W, CHR ''w''), (KEY_X, CHR ''x''),
     (KEY_Y, CHR ''y''), (KEY_Z, CHR ''z''),
     (KEY_0, CHR ''0''), (KEY_1, CHR ''1''), (KEY_2, CHR ''2''), (KEY_3, CHR ''3''),
     (KEY_4, CHR ''4''), (KEY_5, CHR ''5''), (KEY_6, CHR ''6''), (KEY_7, CHR ''7''),
     (KEY_8, CHR ''8''), (KEY_9, CHR ''9''),
     (KEY_MINUS, CHR ''-''), (KEY_EQUALS, CHR ''=''), (KEY_LEFTBRACKET, CHR ''[''),
     (KEY_RIGHTBRACKET, CHR '']''), (KEY_SEMICOLON, CHR '';''), (KEY_QUOTE, CHR 0x27),
     (KEY_BACKSLASH, CHR 0x5C), (KEY_COMMA, CHR '',''), (KEY_PERIOD, CHR ''.''),
     (KEY_SLASH, CHR ''/''), (KEY_SPACE, CHR '' ''), (KEY_COLON, CHR '':'')]"

definition shift_map :: "(char \<times> char) list" where
  "shift_map =
    [(CHR ''2'', CHR ''@''), (CHR ''3'', CHR ''#''), (CHR ''4'', CHR ''$''),
     (CHR ''5'', CHR ''%''), (CHR ''6'', CHR ''^''), (CHR ''7'', CHR ''&''),
     (CHR ''8'', CHR ''*''), (CHR ''9'', CHR ''(''), (CHR ''0'', CHR '')''),
     (CHR ''-'', CHR ''_''), (CHR ''='', CHR ''+''), (CHR ''['', CHR ''{''),
     (CHR '']'', CHR ''}''), (CHR '';'', CHR '':''), (CHR 0x27, CHR 0x22),
     (CHR 0x5C, CHR ''|''), (CHR '','', CHR ''<''), (CHR ''.'', CHR ''>''),
     (CHR ''/'', CHR ''?'')]"

text \<open>
  \<open>str.isalpha\<close> and \<open>str.upper\<close> on one character. The characters of \<open>key_map\<close> are
  ASCII, where these are the letter test and the shift by 32.
\<close>

definition ascii_lower :: "char \<Rightarrow> bool" where
  "ascii_lower c = (97 \<le> (of_char c :: nat) \<and> (of_char c :: nat) \<le> 122)"

definition ascii_upper :: "char \<Rightarrow> bool" where
  "ascii_upper c = (65 \<le> (of_char c :: nat) \<and> (of_char c :: nat) \<le> 90)"

definition char_isalpha :: "char \<Rightarrow> bool" where
  "char_isalpha c = (ascii_lower c \<or> ascii_upper c)"

definition char_upper :: "char \<Rightarrow> char" where
  "char_upper c = (if ascii_lower c then char_of ((of_char c :: nat) - 32) else c)"

definition typed_char :: "bool \<Rightarrow> char \<Rightarrow> char" where
  "typed_char shift_pressed ch =
     (let c1 = (if shift_pressed \<and> char_isalpha ch then char_upper ch else ch)
      in if shift_pressed
         then (case map_of shift_map c1 of
                 Some c2 \<Rightarrow> c2
               | None \<Rightarrow> (if char_isalpha c1 then char_upper c1 else c1))
         else c1)"

definition ctrl_held :: "pyxel_input \<Rightarrow> bool" where
  "ctrl_held inp = (btn inp KEY_CTRL \<or> btn inp KEY_GUI)"

text \<open>
  The branches of \<open>handle_input\<close>, one definition for each key the method handles,
  in the order of the source. An exception of \<open>pyperclip\<close> is caught in the source
  and changes nothing.
\<close>

definition copy_text :: "clipboard \<Rightarrow> input_field \<Rightarrow> clipboard" where
  \<comment> \<open>Ctrl+C: the field is unchanged, the clipboard receives the text.\<close>
  "copy_text cb f =
     (if clipboard_available f \<and> text_of f \<noteq> []
      then (case cb of Clipboard _ \<Rightarrow> Clipboard (text_of f) | ClipboardError \<Rightarrow> cb)
      else cb)"

definition paste_text :: "clipboard \<Rightarrow> input_field \<Rightarrow> input_field" where
  \<comment> \<open>Ctrl+V: the clipboard text, cut to the remaining length, goes in at the cursor.\<close>
  "paste_text cb f =
     (if clipboard_available f
      then (case cb of
              ClipboardError \<Rightarrow> f
            | Clipboard clipboard_text \<Rightarrow>
                if clipboard_text \<noteq> [] then
                  (let remaining_length = max_length f - int (length (text_of f));
                       text_to_insert = py_slice_to remaining_length clipboard_text
                   in f\<lparr>text_of := py_slice_to (cursor_position f) (text_of f)
                                     @ text_to_insert
                                     @ py_slice_from (cursor_position f) (text_of f),
                          cursor_position := cursor_position f + int (length text_to_insert)\<rparr>)
                else f)
      else f)"

definition select_all :: "input_field \<Rightarrow> input_field" where
  \<comment> \<open>Ctrl+A: "select all by clearing".\<close>
  "select_all f = f\<lparr>text_of := [], cursor_position := 0\<rparr>"

definition cursor_left :: "input_field \<Rightarrow> input_field" where
  "cursor_left f =
     (if cursor_position f > 0 then f\<lparr>cursor_position := cursor_position f - 1\<rparr> else f)"

definition cursor_right :: "input_field \<Rightarrow> input_field" where
  "cursor_right f =
     (if cursor_position f < int (length (text_of f))
      then f\<lparr>cursor_position := cursor_position f + 1\<rparr> else f)"

definition cursor_home :: "input_field \<Rightarrow> input_field" where
  "cursor_home f = f\<lparr>cursor_position := 0\<rparr>"

definition cursor_end :: "input_field \<Rightarrow> input_field" where
  "cursor_end f = f\<lparr>cursor_position := int (length (text_of f))\<rparr>"

definition backspace :: "input_field \<Rightarrow> input_field" where
  "backspace f =
     (if cursor_position f > 0
      then f\<lparr>text_of := py_slice_to (cursor_position f - 1) (text_of f)
                          @ py_slice_from (cursor_position f) (text_of f),
               cursor_position := cursor_position f - 1\<rparr>
      else f)"

definition delete_char :: "input_field \<Rightarrow> input_field" where
  "delete_char f =
     (if cursor_position f < int (length (text_of f))
      then f\<lparr>text_of := py_slice_to (cursor_position f) (text_of f)
                          @ py_slice_from (cursor_position f + 1) (text_of f)\<rparr>
      else f)"

definition type_key :: "pyxel_input \<Rightarrow> input_field \<Rightarrow> input_field" where
  \<comment> \<open>The loop over \<open>key_map.items()\<close>: the first pressed key, in the order of the
      dictionary, is handled and the loop is left.\<close>
  "type_key inp f =
     (case find (\<lambda>(k, ch). btnp inp k) key_map of
        None \<Rightarrow> f
      | Some (k, ch) \<Rightarrow>
          if int (length (text_of f)) < max_length f
          then f\<lparr>text_of := py_slice_to (cursor_position f) (text_of f)
                              @ [typed_char (btn inp KEY_SHIFT) ch]
                              @ py_slice_from (cursor_position f) (text_of f),
                   cursor_position := cursor_position f + 1\<rparr>
          else f)"

definition handle_input ::
  "pyxel_input \<Rightarrow> clipboard \<Rightarrow> input_field \<Rightarrow> input_field \<times> clipboard" where
  "handle_input inp cb f =
    (if \<not> active f then (f, cb)
     else if ctrl_held inp \<and> btnp inp KEY_C then (f, copy_text cb f)
     else if ctrl_held inp \<and> btnp inp KEY_V then (paste_text cb f, cb)
     else if ctrl_held inp \<and> btnp inp KEY_A then (select_all f, cb)
     else if btnp inp KEY_LEFT then (cursor_left f, cb)
     else if btnp inp KEY_RIGHT then (cursor_right f, cb)
     else if btnp inp KEY_HOME then (cursor_home f, cb)
     else if btnp inp KEY_END then (cursor_end f, cb)
     else if btnp inp KEY_BACKSPACE then (backspace f, cb)
     else if btnp inp KEY_DELETE then (delete_char f, cb)
     else (type_key inp f, cb))"

definition clear :: "input_field \<Rightarrow> input_field" where
  "clear f = f\<lparr>text_of := [], cursor_position := 0\<rparr>"

definition field_inv :: "input_field \<Rightarrow> bool" where
  "field_inv f =
     (0 \<le> cursor_position f \<and> cursor_position f \<le> int (length (text_of f))
      \<and> int (length (text_of f)) \<le> max_length f)"


section \<open>core/state\_machine.py: StateMachine\<close>

text \<open>
  The machine holds the registered scenes (a dictionary from names to scene objects),
  the current scene and the name of the pending transition; \<open>None\<close> is Python's
  \<open>None\<close>. A scene object is a value of the type \<open>'s\<close>.
\<close>

record 's state_machine =
  states :: "(string \<times> 's) list"
  current_state :: "'s option"
  next_state :: "string option"

text \<open>
  What the scenes do when the machine calls them. An exception of \<open>exit\<close> or of
  \<open>update\<close> is logged and swallowed by the machine and changes none of its fields,
  so only \<open>enter\<close> needs a flag. A scene's \<open>update\<close> may ask for a transition through
  \<open>change_state\<close> (the scenes of the repository do so on Enter and Escape);
  \<open>enter\<close> and \<open>exit\<close> of the repository's scenes do not touch the machine.
\<close>

record 's scene_behaviour =
  enter_raises :: "'s \<Rightarrow> bool"
  update_requests :: "'s \<Rightarrow> string option"

datatype 's scene_call = Exit 's | Enter 's | Update 's

definition add_state :: "string \<Rightarrow> 's \<Rightarrow> 's state_machine \<Rightarrow> 's state_machine" where
  "add_state name state sm = sm\<lparr>states := AList.update name state (states sm)\<rparr>"

definition change_state :: "string \<Rightarrow> 's state_machine \<Rightarrow> py_error + 's state_machine" where
  \<comment> \<open>The \<open>ValueError\<close> is logged and raised again: it reaches the caller.\<close>
  "change_state name sm =
     (if map_of (states sm) name = None then Inl ValueError
      else Inr (sm\<lparr>next_state := Some name\<rparr>))"

definition menu_fallback ::
  "'s scene_behaviour \<Rightarrow> 's state_machine \<Rightarrow> 's scene_call list
     \<Rightarrow> 's state_machine \<times> 's scene_call list \<times> bool" where
  \<comment> \<open>The \<open>except\<close> branch and the \<open>finally\<close> of the transition. The flag says that the
      exception of the menu's own \<open>enter\<close> left the block.\<close>
  "menu_fallback env sm calls =
     (case map_of (states sm) ''menu'' of
        None \<Rightarrow> (sm\<lparr>next_state := None\<rparr>, calls, False)
      | Some m \<Rightarrow>
          (sm\<lparr>current_state := Some m, next_state := None\<rparr>, calls @ [Enter m],
           enter_raises env m))"

definition transition ::
  "'s scene_behaviour \<Rightarrow> 's state_machine
     \<Rightarrow> 's state_machine \<times> 's scene_call list \<times> bool" where
  \<comment> \<open>\<open>if self.next_state:\<close> is Python's truth test: \<open>None\<close> and the empty string
      are false.\<close>
  "transition env sm =
     (case next_state sm of
        None \<Rightarrow> (sm, [], False)
      | Some name \<Rightarrow>
          if name = [] then (sm, [], False)
          else
            (let exits = (case current_state sm of None \<Rightarrow> [] | Some c \<Rightarrow> [Exit c])
             in case map_of (states sm) name of
                  None \<Rightarrow> menu_fallback env sm exits
                | Some s \<Rightarrow>
                    if enter_raises env s
                    then menu_fallback env (sm\<lparr>current_state := Some s\<rparr>) (exits @ [Enter s])
                    else (sm\<lparr>current_state := Some s, next_state := None\<rparr>,
                          exits @ [Enter s], False)))"

definition scene_update :: "'s scene_behaviour \<Rightarrow> 's \<Rightarrow> 's state_machine \<Rightarrow> 's state_machine" where
  "scene_update env c sm =
     (case update_requests env c of
        None \<Rightarrow> sm
      | Some name \<Rightarrow> (case change_state name sm of Inl _ \<Rightarrow> sm | Inr sm' \<Rightarrow> sm'))"

definition update ::
  "'s scene_behaviour \<Rightarrow> 's state_machine \<Rightarrow> 's state_machine \<times> 's scene_call list" where
  "update env sm =
     (case transition env sm of
        (sm1, calls, escaped) \<Rightarrow>
          if escaped then (sm1, calls)
          else (case current_state sm1 of
                  None \<Rightarrow> (sm1, calls)
                | Some c \<Rightarrow> (scene_update env c sm1, calls @ [Update c])))"


section \<open>daily\_views\_report.py: ensure\_date\_header\<close>

text \<open>
  The cells of a worksheet hold Python strings, here lists of Unicode code points.
  The two literals of the method are Russian text: the header it appends (three
  words, "date of adding the record") and the text it looks for (the first two of
  these words). They are written by their code points (U+0414 U+0430 U+0442 U+0430,
  a space, and so on).
\<close>

type_synonym ustr = "nat list"

definition date_header_probe :: ustr where
  "date_header_probe =
     [0x414, 0x430, 0x442, 0x430, 0x20,
      0x434, 0x43E, 0x431, 0x430, 0x432, 0x43B, 0x435, 0x43D, 0x438, 0x44F]"

definition date_header :: ustr where
  "date_header =
     [0x414, 0x430, 0x442, 0x430, 0x20,
      0x434, 0x43E, 0x431, 0x430, 0x432, 0x43B, 0x435, 0x43D, 0x438, 0x44F, 0x20,
      0x437, 0x430, 0x43F, 0x438, 0x441, 0x438]"

text \<open>Python's \<open>sub in s\<close> on strings: \<open>sub\<close> occurs in \<open>s\<close> as a contiguous run.\<close>

fun str_contains :: "'a list \<Rightarrow> 'a list \<Rightarrow> bool" where
  "str_contains sub [] = (sub = [])"
| "str_contains sub (c # cs) = (prefix sub (c # cs) \<or> str_contains sub cs)"

text \<open>
  The worksheet of the spreadsheet service: \<open>rows\<close> is what \<open>get_all_values()\<close>
  returns, and the two flags say whether the service fails the call, which raises
  in the client library.
\<close>

record worksheet =
  rows :: "ustr list list"
  get_fails :: bool
  update_fails :: bool

definition get_all_values :: "worksheet \<Rightarrow> py_error + ustr list list" where
  "get_all_values sheet = (if get_fails sheet then Inl OtherException else Inr (rows sheet))"

text \<open>
  \<open>sheet.update(values=..., range_name='A1')\<close> writes the given rows over the cells
  that start at the first row and column; cells beyond the written ones stay.
\<close>

fun write_rows :: "'a list list \<Rightarrow> 'a list list \<Rightarrow> 'a list list" where
  "write_rows [] old = old"
| "write_rows (v # vs) [] = v # write_rows vs []"
| "write_rows (v # vs) (r # rs) = (v @ drop (length v) r) # write_rows vs rs"

definition sheet_update :: "ustr list list \<Rightarrow> worksheet \<Rightarrow> py_error + worksheet" where
  "sheet_update values sheet =
     (if update_fails sheet then Inl OtherException
      else Inr (sheet\<lparr>rows := write_rows values (rows sheet)\<rparr>))"

definition ensure_date_header :: "worksheet \<Rightarrow> bool \<times> worksheet" where
  \<comment> \<open>The result and the worksheet after the call. Every exception is caught and
      gives \<open>False\<close>.\<close>
  "ensure_date_header sheet =
     (case get_all_values sheet of
        Inl e \<Rightarrow> (False, sheet)
      | Inr all_rows \<Rightarrow>
          (case all_rows of
             [] \<Rightarrow> (False, sheet)
           | headers # _ \<Rightarrow>
               if \<not> list_ex (str_contains date_header_probe) headers
               then (case sheet_update [headers @ [date_header]] sheet of
                       Inl e \<Rightarrow> (False, sheet)
                     | Inr sheet' \<Rightarrow> (True, sheet'))
               else (False, sheet)))"


section \<open>Python's regular expressions\<close>

text \<open>
  The patterns of the source are written as terms of \<open>regex\<close>; next to each one
  stands the pattern string it renders. A \<open>char\<close> is a code point below 256; on
  these, \<open>\d\<close> matches the ten ASCII digits only.
\<close>

datatype citem =
    C char              \<comment> \<open>one character\<close>
  | R char char         \<comment> \<open>a range \<open>a-z\<close>\<close>
  | D                   \<comment> \<open>\<open>\d\<close>\<close>

datatype regex =
    Eps
  | Set "citem list"    \<comment> \<open>\<open>[...]\<close>, and one literal character or \<open>\d\<close> as the one-item set\<close>
  | NSet "citem list"   \<comment> \<open>\<open>[^...]\<close>\<close>
  | Seq regex regex
  | Alt regex regex     \<comment> \<open>\<open>a|b\<close>\<close>
  | Opt regex           \<comment> \<open>\<open>a?\<close>, greedy\<close>
  | Star regex          \<comment> \<open>\<open>a*\<close>, greedy\<close>
  | Plus regex          \<comment> \<open>\<open>a+\<close>, greedy\<close>
  | Grp nat regex       \<comment> \<open>the capturing group with this number\<close>

definition is_digit :: "char \<Rightarrow> bool" where
  "is_digit x = (48 \<le> (of_char x :: nat) \<and> (of_char x :: nat) \<le> 57)"

fun citem_matches :: "citem \<Rightarrow> char \<Rightarrow> bool" where
  "citem_matches (C c) x = (x = c)"
| "citem_matches (R a b) x = ((of_char a :: nat) \<le> of_char x \<and> (of_char x :: nat) \<le> of_char b)"
| "citem_matches D x = is_digit x"

fun lit :: "string \<Rightarrow> regex" where
  "lit [] = Eps"
| "lit (c # cs) = Seq (Set [C c]) (lit cs)"

text \<open>
  A matcher state is the rest of the input and the groups captured so far, the
  latest first. \<open>step r st\<close> lists the states in which a match of \<open>r\<close> from \<open>st\<close> can
  end, in the order in which Python's backtracking matcher tries them: a greedy
  repetition tries one more round before it tries to stop. A round of a repetition
  that consumes nothing is not taken, so the rest of the input bounds the rounds.
\<close>

type_synonym mstate = "string \<times> (nat \<times> string) list"

fun rounds :: "(mstate \<Rightarrow> mstate list) \<Rightarrow> nat \<Rightarrow> mstate \<Rightarrow> mstate list" where
  "rounds f 0 st = [st]"
| "rounds f (Suc k) st =
     concat (map (rounds f k) (filter (\<lambda>st'. length (fst st') < length (fst st)) (f st)))
       @ [st]"

primrec step :: "regex \<Rightarrow> mstate \<Rightarrow> mstate list" where
  "step Eps = (\<lambda>st. [st])"
| "step (Set cs) =
     (\<lambda>st. case fst st of
              [] \<Rightarrow> []
            | x # xs \<Rightarrow> if list_ex (\<lambda>i. citem_matches i x) cs then [(xs, snd st)] else [])"
| "step (NSet cs) =
     (\<lambda>st. case fst st of
              [] \<Rightarrow> []
            | x # xs \<Rightarrow> if list_ex (\<lambda>i. citem_matches i x) cs then [] else [(xs, snd st)])"
| "step (Seq a b) = (\<lambda>st. concat (map (step b) (step a st)))"
| "step (Alt a b) = (\<lambda>st. step a st @ step b st)"
| "step (Opt a) = (\<lambda>st. step a st @ [st])"
| "step (Star a) = (\<lambda>st. rounds (step a) (length (fst st)) st)"
| "step (Plus a) = (\<lambda>st. concat (map (\<lambda>st'. rounds (step a) (length (fst st')) st') (step a st)))"
| "step (Grp n a) =
     (\<lambda>st. map (\<lambda>st'. (fst st', (n, take (length (fst st) - length (fst st')) (fst st)) # snd st'))
                (step a st))"

text \<open>
  A match object: the text before the match, the matched text, the text after it
  and the groups. \<open>group m n\<close> is \<open>m.group(n)\<close>, \<open>None\<close> for a group that took no part.
\<close>

record rmatch =
  before :: string
  matched :: string
  after :: string
  groups :: "(nat \<times> string) list"

definition group :: "rmatch \<Rightarrow> nat \<Rightarrow> string option" where
  "group m n = map_of (groups m) n"

definition match_at :: "regex \<Rightarrow> string \<Rightarrow> string \<Rightarrow> rmatch option" where
  \<comment> \<open>the first way to match at the position between \<open>pre\<close> and \<open>s\<close>\<close>
  "match_at r pre s =
     (case step r (s, []) of
        [] \<Rightarrow> None
      | (rest, gs) # _ \<Rightarrow>
          Some \<lparr>before = pre, matched = take (length s - length rest) s, after = rest,
                groups = gs\<rparr>)"

definition re_match :: "regex \<Rightarrow> string \<Rightarrow> rmatch option" where
  "re_match r s = match_at r [] s"

fun search_from :: "regex \<Rightarrow> string \<Rightarrow> string \<Rightarrow> rmatch option" where
  "search_from r pre [] = match_at r pre []"
| "search_from r pre (x # xs) =
     (case match_at r pre (x # xs) of
        Some m \<Rightarrow> Some m
      | None \<Rightarrow> search_from r (pre @ [x]) xs)"

definition re_search :: "regex \<Rightarrow> string \<Rightarrow> rmatch option" where
  "re_search r s = search_from r [] s"


section \<open>advanced\_social\_stats.py: the identifier extractors\<close>

text \<open>
  \<open>\d+\<close> and the four patterns of the two VK extractors:
  \<open>clip(\d+)_(\d+)\<close>, \<open>z=clip\d+_(\d+)\<close>, \<open>owner=(\d+)\<close> and \<open>clip(\d+)_\d+\<close>.
\<close>

definition digits1 :: regex where
  "digits1 = Plus (Set [D])"

definition pat_clip_owner_video :: regex where
  "pat_clip_owner_video =
     Seq (lit ''clip'') (Seq (Grp 1 digits1) (Seq (lit ''_'') (Grp 2 digits1)))"

definition pat_z_clip_video :: regex where
  "pat_z_clip_video =
     Seq (lit ''z=clip'') (Seq digits1 (Seq (lit ''_'') (Grp 1 digits1)))"

definition pat_owner :: regex where
  "pat_owner = Seq (lit ''owner='') (Grp 1 digits1)"

definition pat_clip_owner :: regex where
  "pat_clip_owner = Seq (lit ''clip'') (Seq (Grp 1 digits1) (Seq (lit ''_'') digits1))"

definition extract_vk_video_id :: "string \<Rightarrow> string option" where
  "extract_vk_video_id url =
     (case re_search pat_clip_owner_video url of
        Some clip_match \<Rightarrow> group clip_match 2
      | None \<Rightarrow>
          (case re_search pat_z_clip_video url of
             Some z_match \<Rightarrow> group z_match 1
           | None \<Rightarrow> None))"

definition extract_vk_owner_id :: "string \<Rightarrow> string option" where
  "extract_vk_owner_id url =
     (case re_search pat_owner url of
        Some owner_match \<Rightarrow> group owner_match 1
      | None \<Rightarrow>
          (case re_search pat_clip_owner url of
             Some clip_match \<Rightarrow> group clip_match 1
           | None \<Rightarrow> None))"


subsection \<open>\_is\_short\<close>

text \<open>
  \<open>int(s)\<close> on a run of ASCII digits. CPython from 3.11 on refuses a string of more
  than \<open>int_max_str_digits\<close> digits with \<open>ValueError\<close> (4300 unless configured).
\<close>

definition digit_value :: "char \<Rightarrow> nat" where
  "digit_value c = (of_char c :: nat) - 48"

definition digits_value :: "string \<Rightarrow> nat" where
  "digits_value ds = foldl (\<lambda>a c. 10 * a + digit_value c) 0 ds"

definition int_max_str_digits :: nat where
  "int_max_str_digits = 4300"

definition py_int_digits :: "string \<Rightarrow> py_error + int" where
  "py_int_digits ds =
     (if ds = [] \<or> \<not> list_all is_digit ds \<or> length ds > int_max_str_digits
      then Inl ValueError
      else Inr (int (digits_value ds)))"

text \<open>\<open>PT(?:(\d+)H)?(?:(\d+)M)?(?:(\d+)S)?\<close>\<close>

definition pat_duration :: regex where
  "pat_duration =
     Seq (lit ''PT'')
       (Seq (Opt (Seq (Grp 1 digits1) (lit ''H'')))
         (Seq (Opt (Seq (Grp 2 digits1) (lit ''M'')))
              (Opt (Seq (Grp 3 digits1) (lit ''S'')))))"

definition group_int_or_0 :: "rmatch \<Rightarrow> nat \<Rightarrow> py_error + int" where
  \<comment> \<open>\<open>int(match.group(n) or 0)\<close>: \<open>None\<close> and the empty string are false\<close>
  "group_int_or_0 m n =
     (case group m n of
        None \<Rightarrow> Inr 0
      | Some g \<Rightarrow> if g = [] then Inr 0 else py_int_digits g)"

text \<open>
  The argument is the string that \<open>video_details.get('duration', '')\<close> gives. Every
  exception is caught and gives \<open>False\<close>.
\<close>

definition is_short :: "string \<Rightarrow> bool" where
  "is_short duration =
     (if duration = [] then False
      else (case re_match pat_duration duration of
              None \<Rightarrow> False
            | Some m \<Rightarrow>
                (case group_int_or_0 m 1 of
                   Inl e \<Rightarrow> False
                 | Inr hours \<Rightarrow>
                     (case group_int_or_0 m 2 of
                        Inl e \<Rightarrow> False
                      | Inr minutes \<Rightarrow>
                          (case group_int_or_0 m 3 of
                             Inl e \<Rightarrow> False
                           | Inr seconds \<Rightarrow>
                               hours * 3600 + minutes * 60 + seconds \<le> 60)))))"

text \<open>
  Two readings of a duration string, written from the words of the specification to
  be compared with \<open>is_short\<close>. \<open>component\<close> reads one part \<open>[digits]letter\<close> from the
  front of a string, if there is one. \<open>leading_seconds\<close> is the total of the parts
  \<open>PT[H]h[M]m[S]s\<close> at the front of the string, whatever follows them;
  \<open>iso_duration_seconds\<close> is the total when the whole string has that form.
\<close>

definition component :: "char \<Rightarrow> string \<Rightarrow> nat \<times> string" where
  "component letter s =
     (case dropWhile is_digit s of
        [] \<Rightarrow> (0, s)
      | x # r \<Rightarrow>
          if takeWhile is_digit s \<noteq> [] \<and> x = letter
          then (digits_value (takeWhile is_digit s), r)
          else (0, s))"

definition duration_parts :: "string \<Rightarrow> (nat \<times> string) option" where
  \<comment> \<open>the total in seconds of the leading parts, and the text left after them\<close>
  "duration_parts d =
     (case d of
        p # t # d1 \<Rightarrow>
          if p = CHR ''P'' \<and> t = CHR ''T'' then
            (case component CHR ''H'' d1 of
               (h, d2) \<Rightarrow>
                 (case component CHR ''M'' d2 of
                    (m, d3) \<Rightarrow>
                      (case component CHR ''S'' d3 of
                         (s, d4) \<Rightarrow> Some (h * 3600 + m * 60 + s, d4))))
          else None
      | _ \<Rightarrow> None)"

definition leading_seconds :: "string \<Rightarrow> nat option" where
  "leading_seconds d = map_option fst (duration_parts d)"

definition iso_duration_seconds :: "string \<Rightarrow> nat option" where
  "iso_duration_seconds d =
     (case duration_parts d of
        None \<Rightarrow> None
      | Some (secs, rest) \<Rightarrow> if rest = [] then Some secs else None)"

text \<open>
  The state in which the matcher leaves an optional part \<open>(?:(\d+)L)?\<close> with the
  group number \<open>i\<close>: behind the digits and the letter with the digits captured, or
  where it was.
\<close>

definition after_component :: "nat \<Rightarrow> char \<Rightarrow> mstate \<Rightarrow> mstate" where
  "after_component i letter st =
     (case dropWhile is_digit (fst st) of
        [] \<Rightarrow> st
      | x # r \<Rightarrow>
          if takeWhile is_digit (fst st) \<noteq> [] \<and> x = letter
          then (r, (i, takeWhile is_digit (fst st)) # snd st)
          else st)"


section \<open>Python floats\<close>

text \<open>
  A Python \<open>float\<close> is an IEEE 754 binary64 number: a rational with a 53-bit
  significand, an infinity or a NaN. Every operation gives the exact result
  rounded to the nearest such number, ties to the even significand. The sign of a
  zero is not modelled; no result here depends on it.
\<close>

datatype pyfloat = Finite rat | PosInf | NegInf | NaN

definition pow2 :: "int \<Rightarrow> rat" where
  "pow2 e = (if 0 \<le> e then 2 ^ nat e else 1 / 2 ^ nat (- e))"

definition ilog2 :: "rat \<Rightarrow> int" where
  \<comment> \<open>for \<open>q > 0\<close>, the exponent \<open>e\<close> with \<open>2^e \<le> q < 2^(e+1)\<close>\<close>
  "ilog2 q = (if 1 \<le> q then bitlen \<lfloor>q\<rfloor> - 1 else - bitlen (\<lceil>1 / q\<rceil> - 1))"

definition round_half_even :: "rat \<Rightarrow> int" where
  "round_half_even x =
     (let f = \<lfloor>x\<rfloor>; r = x - of_int f
      in if r < 1 / 2 then f
         else if 1 / 2 < r then f + 1
         else if even f then f else f + 1)"

definition round64 :: "rat \<Rightarrow> pyfloat" where
  \<comment> \<open>the spacing of the binary64 numbers around \<open>q\<close> is \<open>2^(e - 52)\<close>, and \<open>2^(-1074)\<close>
      among the subnormal ones; a result of \<open>2^1024\<close> or more overflows\<close>
  "round64 q =
     (if q = 0 then Finite 0
      else
        (let a = \<bar>q\<bar>;
             e = max (ilog2 a - 52) (- 1074);
             v = of_int (round_half_even (a / pow2 e)) * pow2 e
         in if pow2 1024 \<le> v then (if 0 < q then PosInf else NegInf)
            else Finite (if 0 < q then v else - v)))"

definition float_of_int :: "int \<Rightarrow> py_error + pyfloat" where
  \<comment> \<open>the conversion of an \<open>int\<close> operand; too large an integer raises\<close>
  "float_of_int n =
     (case round64 (of_int n) of Finite v \<Rightarrow> Inr (Finite v) | _ \<Rightarrow> Inl OverflowError)"

fun fneg :: "pyfloat \<Rightarrow> pyfloat" where
  "fneg (Finite a) = Finite (- a)"
| "fneg PosInf = NegInf"
| "fneg NegInf = PosInf"
| "fneg NaN = NaN"

fun fabs :: "pyfloat \<Rightarrow> pyfloat" where
  "fabs (Finite a) = Finite \<bar>a\<bar>"
| "fabs PosInf = PosInf"
| "fabs NegInf = PosInf"
| "fabs NaN = NaN"

fun fadd :: "pyfloat \<Rightarrow> pyfloat \<Rightarrow> pyfloat" where
  "fadd (Finite a) (Finite b) = round64 (a + b)"
| "fadd NaN _ = NaN"
| "fadd _ NaN = NaN"
| "fadd PosInf NegInf = NaN"
| "fadd NegInf PosInf = NaN"
| "fadd PosInf _ = PosInf"
| "fadd NegInf _ = NegInf"
| "fadd _ PosInf = PosInf"
| "fadd _ NegInf = NegInf"

definition fsub :: "pyfloat \<Rightarrow> pyfloat \<Rightarrow> pyfloat" where
  "fsub x y = fadd x (fneg y)"

definition fsign :: "pyfloat \<Rightarrow> int" where
  \<comment> \<open>of a number that is not a NaN\<close>
  "fsign x = (case x of Finite a \<Rightarrow> sgn \<lfloor>a\<rfloor> + (if 0 < a \<and> a < 1 then 1 else 0)
              | PosInf \<Rightarrow> 1 | NegInf \<Rightarrow> - 1 | NaN \<Rightarrow> 0)"

fun fmul :: "pyfloat \<Rightarrow> pyfloat \<Rightarrow> pyfloat" where
  "fmul (Finite a) (Finite b) = round64 (a * b)"
| "fmul NaN _ = NaN"
| "fmul _ NaN = NaN"
| "fmul x y =
     (if fsign x * fsign y = 0 then NaN
      else if 0 < fsign x * fsign y then PosInf else NegInf)"

fun fdiv :: "pyfloat \<Rightarrow> pyfloat \<Rightarrow> py_error + pyfloat" where
  \<comment> \<open>\<open>x / y\<close> on floats: a zero divisor raises\<close>
  "fdiv NaN (Finite b) = (if b = 0 then Inl ZeroDivisionError else Inr NaN)"
| "fdiv NaN _ = Inr NaN"
| "fdiv _ NaN = Inr NaN"
| "fdiv (Finite a) (Finite b) =
     (if b = 0 then Inl ZeroDivisionError else Inr (round64 (a / b)))"
| "fdiv (Finite a) _ = Inr (Finite 0)"
| "fdiv x (Finite b) =
     (if b = 0 then Inl ZeroDivisionError
      else Inr (if 0 < fsign x * fsign (Finite b) then PosInf else NegInf))"
| "fdiv _ _ = Inr NaN"

fun flt :: "pyfloat \<Rightarrow> pyfloat \<Rightarrow> bool" where
  \<comment> \<open>\<open>x < y\<close>: false when either side is a NaN\<close>
  "flt (Finite a) (Finite b) = (a < b)"
| "flt NaN _ = False"
| "flt _ NaN = False"
| "flt PosInf _ = False"
| "flt _ PosInf = True"
| "flt NegInf NegInf = False"
| "flt NegInf _ = True"
| "flt _ NegInf = False"

definition int_of_float :: "pyfloat \<Rightarrow> py_error + int" where
  \<comment> \<open>\<open>int(x)\<close> truncates towards zero\<close>
  "int_of_float x =
     (case x of
        Finite a \<Rightarrow> Inr (if 0 \<le> a then \<lfloor>a\<rfloor> else \<lceil>a\<rceil>)
      | NaN \<Rightarrow> Inl ValueError
      | _ \<Rightarrow> Inl OverflowError)"


section \<open>advanced\_social\_stats.py: \_parse\_number\<close>

text \<open>
  \<open>re.findall\<close> for a pattern without groups: the matched texts from left to right,
  each search starting where the last match ended. The counter is the number of
  characters still inside the last match.
\<close>

fun findall_scan :: "regex \<Rightarrow> nat \<Rightarrow> string \<Rightarrow> string list" where
  "findall_scan r inside [] =
     (if inside = 0
      then (case match_at r [] [] of None \<Rightarrow> [] | Some m \<Rightarrow> [matched m])
      else [])"
| "findall_scan r inside (x # xs) =
     (if 0 < inside then findall_scan r (inside - 1) xs
      else (case match_at r [] (x # xs) of
              None \<Rightarrow> findall_scan r 0 xs
            | Some m \<Rightarrow> matched m # findall_scan r (length (matched m) - 1) xs))"

definition re_findall :: "regex \<Rightarrow> string \<Rightarrow> string list" where
  "re_findall r s = findall_scan r 0 s"

text \<open>\<open>[\d.]+\<close>\<close>

definition pat_number :: regex where
  "pat_number = Plus (Set [D, C CHR ''.''])"

text \<open>
  \<open>float(s)\<close> on a text of digits and dots, which is all that \<open>[\d.]+\<close> can match:
  digits with at most one dot and at least one digit, or \<open>ValueError\<close>. The value is
  the decimal number rounded to the nearest float.
\<close>

definition py_float :: "string \<Rightarrow> py_error + pyfloat" where
  "py_float s =
     (let ip = takeWhile is_digit s
      in case dropWhile is_digit s of
           [] \<Rightarrow> if ip = [] then Inl ValueError
                 else Inr (round64 (of_nat (digits_value ip)))
         | c # fp \<Rightarrow>
             if c = CHR ''.'' \<and> list_all is_digit fp \<and> (ip \<noteq> [] \<or> fp \<noteq> [])
             then Inr (round64 (of_nat (digits_value ip)
                                 + of_nat (digits_value fp) / 10 ^ length fp))
             else Inl ValueError)"

text \<open>
  \<open>str.upper\<close>, letter by letter. The method only asks whether \<open>K\<close>, \<open>M\<close> or \<open>B\<close>
  occurs in the result, and among the code points below 256 only the ASCII letters
  \<open>k\<close>, \<open>m\<close> and \<open>b\<close> are mapped to these.
\<close>

definition py_upper :: "string \<Rightarrow> string" where
  "py_upper s = map char_upper s"

definition scaled_number :: "string \<Rightarrow> int \<Rightarrow> py_error + int" where
  \<comment> \<open>\<open>int(float(re.findall(r'[\d.]+', text)[0]) * multiplier)\<close>\<close>
  "scaled_number text multiplier =
     (case re_findall pat_number text of
        [] \<Rightarrow> Inl IndexError
      | first # _ \<Rightarrow>
          (case py_float first of
             Inl e \<Rightarrow> Inl e
           | Inr number \<Rightarrow>
               (case float_of_int multiplier of
                  Inl e \<Rightarrow> Inl e
                | Inr m \<Rightarrow> int_of_float (fmul number m))))"

definition multipliers :: "(char \<times> int) list" where
  "multipliers = [(CHR ''K'', 1000), (CHR ''M'', 1000000), (CHR ''B'', 1000000000)]"

definition parse_number :: "string \<Rightarrow> py_error + int" where
  "parse_number text0 =
     (if text0 = [] then Inr 0
      else
        (let text = filter (\<lambda>c. c \<noteq> CHR 0x22)
                      (filter (\<lambda>c. c \<noteq> CHR '' '') (filter (\<lambda>c. c \<noteq> CHR '','') text0))
         in case find (\<lambda>(sfx, multiplier). sfx \<in> set (py_upper text)) multipliers of
              Some (sfx, multiplier) \<Rightarrow> scaled_number text multiplier
            | None \<Rightarrow>
                (case re_findall pat_number text of
                   [] \<Rightarrow> Inr 0
                 | first # _ \<Rightarrow>
                     (case py_float first of
                        Inl e \<Rightarrow> Inl e
                      | Inr number \<Rightarrow> int_of_float number))))"


section \<open>telegram\_bot.py: calculate\_video\_difference\<close>

text \<open>
  What the method reads of a video file: the duration and the frame rate that
  \<open>VideoFileClip\<close> reports, both floats, and the size in bytes that
  \<open>os.path.getsize\<close> reports. The inspection of a path gives these or raises.
\<close>

record video_info =
  duration :: pyfloat
  fps :: pyfloat
  file_size :: nat

definition int_truediv :: "int \<Rightarrow> int \<Rightarrow> py_error + pyfloat" where
  \<comment> \<open>\<open>a / b\<close> on integers: the quotient rounded once; it raises when the divisor is
      zero or the quotient is beyond the floats\<close>
  "int_truediv a b =
     (if b = 0 then Inl ZeroDivisionError
      else (case round64 (of_int a / of_int b) of
              Finite v \<Rightarrow> Inr (Finite v)
            | _ \<Rightarrow> Inl OverflowError))"

definition float_diff_pct :: "pyfloat \<Rightarrow> pyfloat \<Rightarrow> py_error + pyfloat" where
  \<comment> \<open>\<open>abs(orig - proc) / orig * 100 if orig > 0 else 0\<close>\<close>
  "float_diff_pct orig proc =
     (if flt (Finite 0) orig
      then (case fdiv (fabs (fsub orig proc)) orig of
              Inl e \<Rightarrow> Inl e
            | Inr q \<Rightarrow> Inr (fmul q (Finite 100)))
      else Inr (Finite 0))"

definition size_diff_pct :: "nat \<Rightarrow> nat \<Rightarrow> py_error + pyfloat" where
  "size_diff_pct orig proc =
     (if 0 < orig
      then (case int_truediv \<bar>int orig - int proc\<bar> (int orig) of
              Inl e \<Rightarrow> Inl e
            | Inr q \<Rightarrow> Inr (fmul q (Finite 100)))
      else Inr (Finite 0))"

definition py_min2 :: "pyfloat \<Rightarrow> pyfloat \<Rightarrow> pyfloat" where
  \<comment> \<open>\<open>min(a, b)\<close>: the first argument unless the second is smaller\<close>
  "py_min2 a b = (if flt b a then b else a)"

definition py_max2 :: "pyfloat \<Rightarrow> pyfloat \<Rightarrow> pyfloat" where
  \<comment> \<open>\<open>max(a, b)\<close>: the first argument unless the second is larger\<close>
  "py_max2 a b = (if flt a b then b else a)"

definition py_round1 :: "pyfloat \<Rightarrow> pyfloat" where
  \<comment> \<open>\<open>round(x, 1)\<close>: the nearest number with one decimal, a tie to the even digit,
      as a float\<close>
  "py_round1 x =
     (case x of
        Finite v \<Rightarrow> round64 (of_int (round_half_even (v * 10)) / 10)
      | _ \<Rightarrow> x)"

definition weighted_difference :: "video_info \<Rightarrow> video_info \<Rightarrow> py_error + pyfloat" where
  \<comment> \<open>the body of the \<open>try\<close> once both files are inspected; the log lines divide
      both sizes by 1024, which raises for a size beyond the floats\<close>
  "weighted_difference orig proc =
     (case float_diff_pct (duration orig) (duration proc) of
        Inl e \<Rightarrow> Inl e
      | Inr duration_diff \<Rightarrow>
     (case size_diff_pct (file_size orig) (file_size proc) of
        Inl e \<Rightarrow> Inl e
      | Inr size_diff \<Rightarrow>
     (case float_diff_pct (fps orig) (fps proc) of
        Inl e \<Rightarrow> Inl e
      | Inr fps_diff \<Rightarrow>
          (let total_difference =
                 fadd (fadd (fmul duration_diff (round64 (4 / 10)))
                            (fmul size_diff (round64 (3 / 10))))
                      (fmul fps_diff (round64 (3 / 10)));
               clamped = py_max2 (Finite 1) (py_min2 (Finite 100) total_difference)
           in case int_truediv (int (file_size orig)) 1024 of
                Inl e \<Rightarrow> Inl e
              | Inr _ \<Rightarrow>
                  (case int_truediv (int (file_size proc)) 1024 of
                     Inl e \<Rightarrow> Inl e
                   | Inr _ \<Rightarrow> Inr (py_round1 clamped))))))"

definition calculate_video_difference ::
  "(string \<Rightarrow> py_error + video_info) \<Rightarrow> string \<Rightarrow> string \<Rightarrow> pyfloat" where
  \<comment> \<open>every exception ends in the handler, which returns \<open>3.0\<close>\<close>
  "calculate_video_difference inspect original_path processed_path =
     (case inspect original_path of
        Inl e \<Rightarrow> Finite 3
      | Inr orig \<Rightarrow>
          (case inspect processed_path of
             Inl e \<Rightarrow> Finite 3
           | Inr proc \<Rightarrow>
               (case weighted_difference orig proc of
                  Inl e \<Rightarrow> Finite 3
                | Inr result \<Rightarrow> result)))"


section \<open>advanced\_social\_stats.py: the entry points of the aggregator\<close>

text \<open>
  The values that the entry points handle: \<open>None\<close>, strings (code points),
  integers, lists, and dictionaries with text keys in insertion order.
\<close>

datatype pyval =
    VNone
  | VStr ustr
  | VInt int
  | VList "pyval list"
  | VDict "(string \<times> pyval) list"

definition ucs :: "string \<Rightarrow> ustr" where
  "ucs s = map of_char s"

fun truthy :: "pyval \<Rightarrow> bool" where
  "truthy VNone = False"
| "truthy (VStr s) = (s \<noteq> [])"
| "truthy (VInt n) = (n \<noteq> 0)"
| "truthy (VList xs) = (xs \<noteq> [])"
| "truthy (VDict kvs) = (kvs \<noteq> [])"

fun py_in :: "string \<Rightarrow> pyval \<Rightarrow> py_error + bool" where
  \<comment> \<open>\<open>key in x\<close> for a text \<open>key\<close>: a key of a dictionary, an element of a list, a part
      of a string; \<open>None\<close> and an integer are not containers\<close>
  "py_in k (VDict kvs) = Inr (list_ex (\<lambda>kv. fst kv = k) kvs)"
| "py_in k (VList xs) = Inr (list_ex (\<lambda>x. x = VStr (ucs k)) xs)"
| "py_in k (VStr s) = Inr (str_contains (ucs k) s)"
| "py_in k VNone = Inl TypeError"
| "py_in k (VInt n) = Inl TypeError"

definition has_no_error :: "pyval \<Rightarrow> py_error + bool" where
  \<comment> \<open>\<open>result and 'error' not in result\<close>\<close>
  "has_no_error result =
     (if truthy result
      then (case py_in ''error'' result of Inl e \<Rightarrow> Inl e | Inr b \<Rightarrow> Inr (\<not> b))
      else Inr False)"

definition truthy_str :: "string option \<Rightarrow> string option" where
  \<comment> \<open>an \<open>Optional[str]\<close> under \<open>if not x\<close>: \<open>None\<close> and the empty string are both false\<close>
  "truthy_str x = (case x of None \<Rightarrow> None | Some s \<Rightarrow> if s = [] then None else Some s)"

text \<open>
  The methods behind the entry points. What the first twelve return depends on the
  network and on what the remote service answers, so a checker carries their
  outcome as a function of the arguments: a value or an exception. The methods
  after them are modelled below from their source.
\<close>

datatype method_name =
    M_youtube_api_stats
  | M_youtube_scraping_stats
  | M_get_youtube_short_by_id
  | M_get_youtube_short_scraping
  | M_instagram_scraping_stats
  | M_download_instagram_reel_with_ytdlp
  | M_tiktok_scraping_stats
  | M_get_vk_clips_api
  | M_make_request
  | M_extract_vk_clips_from_html
  | M_get_vk_clip_by_id
  | M_likee_scraping_stats
  | M_youtube_analytics_stats
  | M_instagram_api_stats
  | M_instagram_graph_stats
  | M_tiktok_api_stats
  | M_get_vk_clips
  | M_get_vk_clips_scraping

record checker =
  api_keys :: "string \<rightharpoonup> pyval"
  fetch :: "method_name \<Rightarrow> pyval list \<Rightarrow> py_error + pyval"
  make_request :: "ustr \<Rightarrow> py_error + ustr option"
  message :: "py_error \<Rightarrow> ustr"

text \<open>
  \<open>api_keys\<close> is the dictionary \<open>self.api_keys\<close>; \<open>make_request\<close> gives the text of the
  response, or \<open>None\<close> when every retry failed; \<open>message\<close> is \<open>str(e)\<close> of an exception.
  A run of a method is its result, a value or an exception, with the calls of
  methods it made, in order.
\<close>

type_synonym 'a run = "(py_error + 'a) \<times> (method_name \<times> pyval list) list"

definition returns :: "'a \<Rightarrow> 'a run" where
  "returns x = (Inr x, [])"

definition raises :: "py_error \<Rightarrow> 'a run" where
  "raises e = (Inl e, [])"

definition lift :: "py_error + 'a \<Rightarrow> 'a run" where
  "lift r = (r, [])"

definition and_then :: "'a run \<Rightarrow> ('a \<Rightarrow> 'b run) \<Rightarrow> 'b run" where
  "and_then m f =
     (case fst m of
        Inl e \<Rightarrow> (Inl e, snd m)
      | Inr x \<Rightarrow> (fst (f x), snd m @ snd (f x)))"

definition try_except :: "'a run \<Rightarrow> (py_error \<Rightarrow> 'a run) \<Rightarrow> 'a run" where
  \<comment> \<open>\<open>try: m  except Exception as e: h\<close>\<close>
  "try_except m h =
     (case fst m of
        Inl e \<Rightarrow> (fst (h e), snd m @ snd (h e))
      | Inr x \<Rightarrow> m)"

definition noted :: "method_name \<Rightarrow> pyval list \<Rightarrow> 'a run \<Rightarrow> 'a run" where
  \<comment> \<open>the body of a method modelled here, with its own call put in front\<close>
  "noted m args body = (fst body, (m, args) # snd body)"

definition calls :: "checker \<Rightarrow> method_name \<Rightarrow> pyval list \<Rightarrow> pyval run" where
  "calls c m args = (fetch c m args, [(m, args)])"

definition api_key :: "checker \<Rightarrow> string \<Rightarrow> pyval" where
  \<comment> \<open>\<open>self.api_keys.get(name)\<close>\<close>
  "api_key c name = (case api_keys c name of None \<Rightarrow> VNone | Some v \<Rightarrow> v)"

definition try_method :: "pyval run \<Rightarrow> pyval run \<Rightarrow> pyval run" where
  \<comment> \<open>\<open>result = m; if result and 'error' not in result: return result\<close>, then the rest\<close>
  "try_method m rest =
     and_then m (\<lambda>result.
       and_then (lift (has_no_error result)) (\<lambda>ok. if ok then returns result else rest))"

definition try_value :: "pyval run \<Rightarrow> (pyval \<Rightarrow> pyval) \<Rightarrow> pyval run \<Rightarrow> pyval run" where
  \<comment> \<open>\<open>data = m; if data: return build(data)\<close>, then the rest\<close>
  "try_value m build rest =
     and_then m (\<lambda>data. if truthy data then returns (build data) else rest)"

definition error_result :: "string \<Rightarrow> ustr \<Rightarrow> pyval" where
  "error_result platform text =
     VDict [(''platform'', VStr (ucs platform)), (''error'', VStr text)]"

text \<open>
  The texts of the error results. The Polish letters are given as code points: in
  ASCII the two verbs read "Nie mozna wyciagnac" (cannot extract) and
  "Nie mozna pobrac" (cannot fetch).
\<close>

definition all_methods_failed :: ustr where
  "all_methods_failed = ucs ''Wszystkie metody nieudane''"

definition cannot_extract :: "string \<Rightarrow> ustr" where
  "cannot_extract what =
     ucs ''Nie mo'' @ [0x17C] @ ucs ''na wyci'' @ [0x105] @ ucs ''gn'' @ [0x105, 0x107]
       @ ucs '' '' @ ucs what"

definition cannot_fetch :: "ustr \<Rightarrow> ustr" where
  "cannot_fetch what = ucs ''Nie mo'' @ [0x17C] @ ucs ''na pobra'' @ [0x107] @ ucs '' '' @ what"

definition vk_api_no_data :: ustr where
  "vk_api_no_data = ucs ''VK API nie zwr'' @ [0xF3] @ ucs ''ci'' @ [0x142] @ ucs '' danych''"

definition no_vk_api_key :: ustr where
  "no_vk_api_key = ucs ''Brak VK API key''"

text \<open>
  The extractors that search a URL with a list of patterns and return group 1 of
  the first pattern that matches. The character sets are \<open>[a-zA-Z0-9_-]\<close> and
  \<open>[^/?]\<close>.
\<close>

fun search_patterns :: "regex list \<Rightarrow> string \<Rightarrow> string option" where
  "search_patterns [] url = None"
| "search_patterns (pattern # patterns) url =
     (case re_search pattern url of
        Some m \<Rightarrow> group m 1
      | None \<Rightarrow> search_patterns patterns url)"

definition id_chars :: regex where
  "id_chars = Plus (Set [R CHR ''a'' CHR ''z'', R CHR ''A'' CHR ''Z'', R CHR ''0'' CHR ''9'',
                         C CHR ''_'', C CHR ''-''])"

definition segment :: regex where
  "segment = Plus (NSet [C CHR ''/'', C CHR ''?''])"

definition extract_youtube_video_id :: "string \<Rightarrow> string option" where
  \<comment> \<open>\<open>youtube\.com/shorts/(...)\<close>, \<open>youtube\.com/watch\?v=(...)\<close>, \<open>youtu\.be/(...)\<close>\<close>
  "extract_youtube_video_id url =
     search_patterns
       [Seq (lit ''youtube.com/shorts/'') (Grp 1 id_chars),
        Seq (lit ''youtube.com/watch?v='') (Grp 1 id_chars),
        Seq (lit ''youtu.be/'') (Grp 1 id_chars)] url"

definition extract_instagram_username :: "string \<Rightarrow> string option" where
  \<comment> \<open>\<open>instagram\.com/([^/?]+)\<close>\<close>
  "extract_instagram_username url =
     search_patterns [Seq (lit ''instagram.com/'') (Grp 1 segment)] url"

definition extract_instagram_reel_id :: "string \<Rightarrow> string option" where
  \<comment> \<open>\<open>instagram\.com/reels?/([^/?]+)\<close>, \<open>instagram\.com/p/([^/?]+)\<close>\<close>
  "extract_instagram_reel_id url =
     search_patterns
       [Seq (lit ''instagram.com/reel'')
          (Seq (Opt (Set [C CHR ''s''])) (Seq (lit ''/'') (Grp 1 segment))),
        Seq (lit ''instagram.com/p/'') (Grp 1 segment)] url"

definition extract_tiktok_username :: "string \<Rightarrow> string option" where
  \<comment> \<open>\<open>tiktok\.com/@([^/?]+)\<close>\<close>
  "extract_tiktok_username url =
     search_patterns [Seq (lit ''tiktok.com/@'') (Grp 1 segment)] url"

definition extract_vk_user_id :: "string \<Rightarrow> string option run" where
  \<comment> \<open>The class defines no method \<open>_extract_vk_user_id\<close>, although four places call
      it: the attribute lookup raises \<open>AttributeError\<close> before anything is called.\<close>
  "extract_vk_user_id url = raises AttributeError"

text \<open>The four methods whose body is \<open>return None\<close>.\<close>

definition youtube_analytics_stats :: "string \<Rightarrow> pyval run" where
  "youtube_analytics_stats channel_url =
     noted M_youtube_analytics_stats [VStr (ucs channel_url)] (returns VNone)"

definition instagram_api_stats :: "string \<Rightarrow> pyval run" where
  "instagram_api_stats username =
     noted M_instagram_api_stats [VStr (ucs username)] (returns VNone)"

definition instagram_graph_stats :: "string \<Rightarrow> pyval run" where
  "instagram_graph_stats username =
     noted M_instagram_graph_stats [VStr (ucs username)] (returns VNone)"

definition tiktok_api_stats :: "string \<Rightarrow> pyval run" where
  "tiktok_api_stats username =
     noted M_tiktok_api_stats [VStr (ucs username)] (returns VNone)"

definition check_youtube_stats :: "checker \<Rightarrow> string \<Rightarrow> pyval run" where
  "check_youtube_stats c channel_url =
     try_except
       ((if truthy (api_key c ''youtube'')
         then try_method (calls c M_youtube_api_stats [VStr (ucs channel_url)])
         else (\<lambda>rest. rest))
          (try_method (calls c M_youtube_scraping_stats [VStr (ucs channel_url)])
             (try_method (youtube_analytics_stats channel_url)
                (returns (error_result ''YouTube'' all_methods_failed)))))
       (\<lambda>e. returns (error_result ''YouTube'' (message c e)))"

definition get_youtube_short_data :: "checker \<Rightarrow> string \<Rightarrow> pyval run" where
  "get_youtube_short_data c short_url =
     try_except
       (case truthy_str (extract_youtube_video_id short_url) of
          None \<Rightarrow> returns (error_result ''YouTube'' (cannot_extract ''video ID z URL''))
        | Some video_id \<Rightarrow>
            (if truthy (api_key c ''youtube'')
             then try_value (calls c M_get_youtube_short_by_id [VStr (ucs video_id)])
                    (\<lambda>short_data.
                       VDict [(''platform'', VStr (ucs ''YouTube'')),
                              (''url'', VStr (ucs short_url)),
                              (''shorts'', VList [short_data]),
                              (''method'', VStr (ucs ''YouTube API''))])
             else (\<lambda>rest. rest))
              (try_value (calls c M_get_youtube_short_scraping [VStr (ucs short_url)])
                 (\<lambda>short_data.
                    VDict [(''platform'', VStr (ucs ''YouTube'')),
                           (''url'', VStr (ucs short_url)),
                           (''shorts'', VList [short_data]),
                           (''method'', VStr (ucs ''Scraping''))])
                 (returns (error_result ''YouTube'' (cannot_fetch (ucs ''danych short''))))))
       (\<lambda>e. returns (error_result ''YouTube'' (message c e)))"

definition check_instagram_stats :: "checker \<Rightarrow> string \<Rightarrow> pyval run" where
  "check_instagram_stats c profile_url =
     try_except
       (case truthy_str (extract_instagram_username profile_url) of
          None \<Rightarrow> returns (error_result ''Instagram'' (cannot_extract ''username''))
        | Some username \<Rightarrow>
            (if truthy (api_key c ''instagram'')
             then try_method (instagram_api_stats username)
             else (\<lambda>rest. rest))
              (try_method (calls c M_instagram_scraping_stats [VStr (ucs username)])
                 (try_method (instagram_graph_stats username)
                    (returns (error_result ''Instagram'' all_methods_failed)))))
       (\<lambda>e. returns (error_result ''Instagram'' (message c e)))"

definition get_instagram_reel_data :: "checker \<Rightarrow> string \<Rightarrow> pyval \<Rightarrow> pyval run" where
  "get_instagram_reel_data c reel_url download_path =
     try_except
       (case truthy_str (extract_instagram_reel_id reel_url) of
          None \<Rightarrow> returns (error_result ''Instagram'' (cannot_extract ''reel ID z URL''))
        | Some reel_id \<Rightarrow>
            and_then
              (calls c M_download_instagram_reel_with_ytdlp [VStr (ucs reel_url), download_path])
              (\<lambda>video_path.
                 if truthy video_path
                 then returns
                        (VDict [(''platform'', VStr (ucs ''Instagram'')),
                                (''url'', VStr (ucs reel_url)),
                                (''reel_id'', VStr (ucs reel_id)),
                                (''video_path'', video_path),
                                (''method'', VStr (ucs ''yt-dlp'')),
                                (''reels'',
                                 VList [VDict [(''reel_id'', VStr (ucs reel_id)),
                                               (''url'', VStr (ucs reel_url)),
                                               (''video_path'', video_path)]])])
                 else returns (error_result ''Instagram'' (cannot_fetch (ucs ''video'')))))
       (\<lambda>e. returns (error_result ''Instagram'' (message c e)))"

definition check_tiktok_stats :: "checker \<Rightarrow> string \<Rightarrow> pyval run" where
  "check_tiktok_stats c profile_url =
     try_except
       (case truthy_str (extract_tiktok_username profile_url) of
          None \<Rightarrow> returns (error_result ''TikTok'' (cannot_extract ''username''))
        | Some username \<Rightarrow>
            (if truthy (api_key c ''tiktok'')
             then try_method (tiktok_api_stats username)
             else (\<lambda>rest. rest))
              (try_method (calls c M_tiktok_scraping_stats [VStr (ucs username)])
                 (returns (error_result ''TikTok'' all_methods_failed))))
       (\<lambda>e. returns (error_result ''TikTok'' (message c e)))"

text \<open>
  \<open>str.isdigit\<close> on code points below 256: the ten digits and the superscripts one,
  two and three count as digits, and the empty string has none.
\<close>

definition py_isdigit :: "string \<Rightarrow> bool" where
  "py_isdigit s =
     (s \<noteq> [] \<and> list_all (\<lambda>x. is_digit x \<or> x \<in> set [CHR 0xB2, CHR 0xB3, CHR 0xB9]) s)"

fun py_slice_to5 :: "pyval \<Rightarrow> py_error + pyval" where
  \<comment> \<open>\<open>x[:5]\<close>; a slice is no key of a dictionary: up to Python 3.11 it cannot be
      hashed, which is a \<open>TypeError\<close> (from 3.12 on the lookup fails with \<open>KeyError\<close>)\<close>
  "py_slice_to5 (VList xs) = Inr (VList (take 5 xs))"
| "py_slice_to5 (VStr s) = Inr (VStr (take 5 s))"
| "py_slice_to5 (VDict kvs) = Inl TypeError"
| "py_slice_to5 VNone = Inl TypeError"
| "py_slice_to5 (VInt n) = Inl TypeError"

definition get_vk_clips_scraping :: "checker \<Rightarrow> string \<Rightarrow> string \<Rightarrow> pyval run" where
  "get_vk_clips_scraping c user_id profile_url0 =
     noted M_get_vk_clips_scraping [VStr (ucs user_id), VStr (ucs profile_url0)]
       (try_except
          (if py_isdigit user_id
           then (if truthy (api_key c ''vk'')
                 then calls c M_get_vk_clips_api [VStr (ucs user_id)]
                 else returns VNone)
           else
             and_then
               (if str_contains ''/clips/'' profile_url0
                then and_then (extract_vk_user_id profile_url0)
                       (\<lambda>username.
                          returns (case truthy_str username of
                                     Some name \<Rightarrow> ''https://vk.com/'' @ name
                                   | None \<Rightarrow> profile_url0))
                else returns profile_url0)
               (\<lambda>profile_url.
                  and_then
                    (make_request c (ucs profile_url), [(M_make_request, [VStr (ucs profile_url)])])
                    (\<lambda>response.
                       case response of
                         None \<Rightarrow> returns VNone
                       | Some content \<Rightarrow>
                           and_then
                             (calls c M_extract_vk_clips_from_html
                                [VStr content, VStr (ucs user_id)])
                             (\<lambda>clips.
                                if truthy clips then lift (py_slice_to5 clips)
                                else returns VNone))))
          (\<lambda>e. returns VNone))"

definition get_vk_clips :: "checker \<Rightarrow> string \<Rightarrow> string \<Rightarrow> pyval run" where
  "get_vk_clips c user_id profile_url =
     noted M_get_vk_clips [VStr (ucs user_id), VStr (ucs profile_url)]
       (try_except
          ((if truthy (api_key c ''vk'')
            then try_value (calls c M_get_vk_clips_api [VStr (ucs user_id)])
                   (\<lambda>api_clips.
                      VDict [(''platform'', VStr (ucs ''VK'')),
                             (''clips'', api_clips),
                             (''method'', VStr (ucs ''VK API''))])
            else (\<lambda>rest. rest))
             (try_value (get_vk_clips_scraping c user_id profile_url)
                (\<lambda>scraping_clips.
                   VDict [(''platform'', VStr (ucs ''VK'')),
                          (''clips'', scraping_clips),
                          (''method'', VStr (ucs ''Scraping''))])
                (returns VNone)))
          (\<lambda>e. returns VNone))"

definition check_vk_stats :: "checker \<Rightarrow> string \<Rightarrow> pyval run" where
  "check_vk_stats c profile_url =
     try_except
       (and_then (extract_vk_user_id profile_url)
          (\<lambda>found.
             case truthy_str found of
               None \<Rightarrow> returns (error_result ''VK'' (cannot_extract ''user ID''))
             | Some user_id \<Rightarrow>
                 try_method (get_vk_clips c user_id profile_url)
                   (returns (error_result ''VK''
                               (cannot_fetch (ucs ''clips'' @ [0xF3] @ ucs ''w''))))))
       (\<lambda>e. returns (error_result ''VK'' (message c e)))"

definition get_vk_clip_data :: "checker \<Rightarrow> string \<Rightarrow> pyval run" where
  "get_vk_clip_data c clip_url =
     try_except
       (case truthy_str (extract_vk_video_id clip_url) of
          None \<Rightarrow> returns (error_result ''VK'' (cannot_extract ''video ID z URL''))
        | Some video_id \<Rightarrow>
            (case truthy_str (extract_vk_owner_id clip_url) of
               None \<Rightarrow> returns (error_result ''VK'' (cannot_extract ''owner ID z URL''))
             | Some owner_id \<Rightarrow>
                 if truthy (api_key c ''vk'')
                 then and_then
                        (calls c M_get_vk_clip_by_id [VStr (ucs owner_id), VStr (ucs video_id)])
                        (\<lambda>clip_data.
                           if truthy clip_data
                           then returns
                                  (VDict [(''platform'', VStr (ucs ''VK'')),
                                          (''url'', VStr (ucs clip_url)),
                                          (''clips'', VList [clip_data]),
                                          (''method'', VStr (ucs ''VK API''))])
                           else returns (error_result ''VK'' vk_api_no_data))
                 else returns (error_result ''VK'' no_vk_api_key)))
       (\<lambda>e. returns (error_result ''VK'' (message c e)))"

definition check_likee_stats :: "checker \<Rightarrow> string \<Rightarrow> pyval run" where
  "check_likee_stats c profile_url =
     try_except
       (try_method (calls c M_likee_scraping_stats [VStr (ucs profile_url)])
          (returns (error_result ''Likee'' all_methods_failed)))
       (\<lambda>e. returns (error_result ''Likee'' (message c e)))"

text \<open>
  The properties below speak of a result of the error shape, of a checker all of
  whose network methods fail (each raises or returns a false value, and no request
  gets a response), and of the checker without credentials and without network that
  serves as the example.
\<close>

definition is_error_result :: "string \<Rightarrow> pyval \<Rightarrow> bool" where
  "is_error_result platform r =
     (case r of
        VDict kvs \<Rightarrow>
          map_of kvs ''platform'' = Some (VStr (ucs platform))
          \<and> (case map_of kvs ''error'' of Some (VStr text) \<Rightarrow> True | _ \<Rightarrow> False)
      | _ \<Rightarrow> False)"

definition failed :: "py_error + pyval \<Rightarrow> bool" where
  "failed outcome = (case outcome of Inl e \<Rightarrow> True | Inr v \<Rightarrow> \<not> truthy v)"

definition all_fail :: "checker \<Rightarrow> bool" where
  "all_fail c =
     ((\<forall>m args. failed (fetch c m args))
      \<and> (\<forall>url content. make_request c url \<noteq> Inr (Some content)))"

definition offline_checker :: checker where
  "offline_checker =
     \<lparr>api_keys = Map.empty,
      fetch = (\<lambda>m args. Inr VNone),
      make_request = (\<lambda>url. Inr None),
      message = (\<lambda>e. ucs ''text of the exception'')\<rparr>"

definition fails_or_error :: "string \<Rightarrow> pyval run \<Rightarrow> bool" where
  \<comment> \<open>a body that raises or returns a result of the error shape\<close>
  "fails_or_error platform m =
     (case fst m of Inl e \<Rightarrow> True | Inr r \<Rightarrow> is_error_result platform r)"


section \<open>Menu: selection wraps around\<close>

text \<open>
  Claim C8. For a menu with a non-empty option list of length \<open>n\<close> and a selected index
  \<open>i\<close> in \<open>[0, n)\<close>, \<open>select_next\<close> sets the index to \<open>(i + 1) mod n\<close> and from the last
  option returns to index 0, \<open>select_previous\<close> sets it to \<open>(i - 1) mod n\<close> and from
  index 0 returns to the last index, and \<open>select_next\<close> followed by \<open>select_previous\<close>
  restores the menu.
\<close>

theorem menu_selection_wraps:
  assumes "options m \<noteq> []"
    and "0 \<le> selected_index m"
    and "selected_index m < int (length (options m))"
  shows "select_next m
           = Inr (m\<lparr>selected_index := (selected_index m + 1) mod int (length (options m))\<rparr>)
       \<and> select_next (m\<lparr>selected_index := int (length (options m)) - 1\<rparr>)
           = Inr (m\<lparr>selected_index := 0\<rparr>)
       \<and> select_previous m
           = Inr (m\<lparr>selected_index := (selected_index m - 1) mod int (length (options m))\<rparr>)
       \<and> select_previous (m\<lparr>selected_index := 0\<rparr>)
           = Inr (m\<lparr>selected_index := int (length (options m)) - 1\<rparr>)
       \<and> (case select_next m of Inl e \<Rightarrow> Inl e | Inr m' \<Rightarrow> select_previous m') = Inr m"
proof -
  let ?n = "int (length (options m))"
  have n: "0 < ?n" using assms(1) by simp
  have round_trip: "(((selected_index m + 1) mod ?n) - 1) mod ?n = selected_index m"
    using assms(2,3) by (simp add: mod_diff_left_eq)
  have from_last: "(?n - 1 + 1) mod ?n = 0" by simp
  have from_first: "(0 - 1) mod ?n = ?n - 1"
    using n by (simp add: zmod_minus1)
  show ?thesis
    using n round_trip from_last from_first assms(1)
    by (simp add: select_next_def select_previous_def)
qed

theorem menu_selection_wraps_witness:
  "select_next \<lparr>options = [''Video Stats'', ''Terrain Builder'', ''Quit''], selected_index = 2, animation_frame = 0\<rparr>
     = Inr \<lparr>options = [''Video Stats'', ''Terrain Builder'', ''Quit''], selected_index = 0, animation_frame = 0\<rparr>
   \<and> select_previous \<lparr>options = [''Video Stats'', ''Terrain Builder'', ''Quit''], selected_index = 2, animation_frame = 0\<rparr>
     = Inr \<lparr>options = [''Video Stats'', ''Terrain Builder'', ''Quit''], selected_index = 1, animation_frame = 0\<rparr>"
  using menu_selection_wraps
    [of "\<lparr>options = [''Video Stats'', ''Terrain Builder'', ''Quit''], selected_index = 2, animation_frame = 0\<rparr>"]
  by simp

subsection \<open>InputField: the cursor and length invariants\<close>

lemma inv_paste_text: "field_inv f \<Longrightarrow> field_inv (paste_text cb f)"
  by (auto simp: field_inv_def paste_text_def Let_def py_slice_to_def py_slice_from_def
           split: clipboard.split)

lemma inv_select_all: "field_inv f \<Longrightarrow> field_inv (select_all f)"
  by (simp add: field_inv_def select_all_def)

lemma inv_cursor_left: "field_inv f \<Longrightarrow> field_inv (cursor_left f)"
  by (simp add: field_inv_def cursor_left_def)

lemma inv_cursor_right: "field_inv f \<Longrightarrow> field_inv (cursor_right f)"
  by (simp add: field_inv_def cursor_right_def)

lemma inv_cursor_home: "field_inv f \<Longrightarrow> field_inv (cursor_home f)"
  by (simp add: field_inv_def cursor_home_def)

lemma inv_cursor_end: "field_inv f \<Longrightarrow> field_inv (cursor_end f)"
  by (simp add: field_inv_def cursor_end_def)

lemma inv_backspace: "field_inv f \<Longrightarrow> field_inv (backspace f)"
  by (auto simp: field_inv_def backspace_def py_slice_to_def py_slice_from_def)

lemma inv_delete_char: "field_inv f \<Longrightarrow> field_inv (delete_char f)"
  by (auto simp: field_inv_def delete_char_def py_slice_to_def py_slice_from_def)

lemma inv_type_key: "field_inv f \<Longrightarrow> field_inv (type_key inp f)"
  by (auto simp: field_inv_def type_key_def py_slice_to_def py_slice_from_def
           split: option.split)

text \<open>
  Claim C10. Every operation of the input field (a typed character with or without
  Shift, backspace, delete, cursor left and right, Home, End, paste, select-all and
  \<open>clear\<close>) preserves \<open>0 \<le> cursor_position \<le> len(text)\<close> and \<open>len(text) \<le> max_length\<close>,
  whatever the keys and the clipboard are.
\<close>

theorem input_field_invariant:
  assumes "field_inv f"
  shows "field_inv (fst (handle_input inp cb f)) \<and> field_inv (clear f)"
proof
  show "field_inv (fst (handle_input inp cb f))"
    using assms
    by (simp add: handle_input_def inv_paste_text inv_select_all inv_cursor_left
                  inv_cursor_right inv_cursor_home inv_cursor_end inv_backspace
                  inv_delete_char inv_type_key)
  show "field_inv (clear f)"
    using assms by (simp add: clear_def field_inv_def)
qed

theorem input_field_invariant_witness:
  "field_inv \<lparr>text_of = ''ab'', cursor_position = 1, max_length = 3, active = True,
              cursor_blink = 0, clipboard_available = True\<rparr>
   \<and> field_inv (fst (handle_input \<lparr>btn = (\<lambda>k. k = KEY_CTRL), btnp = (\<lambda>k. k = KEY_V)\<rparr>
        (Clipboard ''xyz'')
        \<lparr>text_of = ''ab'', cursor_position = 1, max_length = 3, active = True,
          cursor_blink = 0, clipboard_available = True\<rparr>))
   \<and> fst (handle_input \<lparr>btn = (\<lambda>k. k = KEY_CTRL), btnp = (\<lambda>k. k = KEY_V)\<rparr>
        (Clipboard ''xyz'')
        \<lparr>text_of = ''ab'', cursor_position = 1, max_length = 3, active = True,
          cursor_blink = 0, clipboard_available = True\<rparr>)
     = \<lparr>text_of = ''axb'', cursor_position = 2, max_length = 3, active = True,
          cursor_blink = 0, clipboard_available = True\<rparr>"
proof -
  have h: "field_inv \<lparr>text_of = ''ab'', cursor_position = 1, max_length = 3, active = True,
              cursor_blink = 0, clipboard_available = True\<rparr>"
    by (simp add: field_inv_def)
  have e: "fst (handle_input \<lparr>btn = (\<lambda>k. k = KEY_CTRL), btnp = (\<lambda>k. k = KEY_V)\<rparr>
        (Clipboard ''xyz'')
        \<lparr>text_of = ''ab'', cursor_position = 1, max_length = 3, active = True,
          cursor_blink = 0, clipboard_available = True\<rparr>)
     = \<lparr>text_of = ''axb'', cursor_position = 2, max_length = 3, active = True,
          cursor_blink = 0, clipboard_available = True\<rparr>"
    by (simp add: handle_input_def ctrl_held_def paste_text_def py_slice_to_def py_slice_from_def)
  show ?thesis
    using h e input_field_invariant [OF h, of "\<lparr>btn = (\<lambda>k. k = KEY_CTRL), btnp = (\<lambda>k. k = KEY_V)\<rparr>" "Clipboard ''xyz''"]
    by simp
qed


section \<open>StateMachine: the two-phase transition\<close>

lemma scene_update_current: "current_state (scene_update env c sm) = current_state sm"
  by (simp add: scene_update_def change_state_def split: option.split)

lemma update_current:
  "current_state (fst (update env sm)) = current_state (fst (transition env sm))"
  by (simp add: update_def scene_update_current split: prod.split option.split)

text \<open>
  Claim C5 as stated fails on the code in two ways. When the \<open>enter\<close> of the requested
  scene raises and a scene is registered as \<open>menu\<close>, the next \<open>update\<close> makes the menu
  scene current, not the requested one. When a scene is registered under the empty
  name, the pending name is false in \<open>if self.next_state:\<close> and \<open>update\<close> runs no
  transition at all.
\<close>

theorem change_state_takes_effect_counterexample:
  "change_state ''video_stats''
      \<lparr>states = [(''menu'', ''MenuScene''), (''video_stats'', ''VideoStatsScene'')],
        current_state = Some ''MenuScene'', next_state = None\<rparr>
     = Inr \<lparr>states = [(''menu'', ''MenuScene''), (''video_stats'', ''VideoStatsScene'')],
            current_state = Some ''MenuScene'', next_state = Some ''video_stats''\<rparr>
   \<and> current_state (fst (update
        \<lparr>enter_raises = (\<lambda>s. s = ''VideoStatsScene''), update_requests = (\<lambda>s. None)\<rparr>
        \<lparr>states = [(''menu'', ''MenuScene''), (''video_stats'', ''VideoStatsScene'')],
          current_state = Some ''MenuScene'', next_state = Some ''video_stats''\<rparr>))
       = Some ''MenuScene''
   \<and> change_state ''''
      \<lparr>states = [('''', ''Scene'')], current_state = None, next_state = None\<rparr>
     = Inr \<lparr>states = [('''', ''Scene'')], current_state = None, next_state = Some ''''\<rparr>
   \<and> update \<lparr>enter_raises = (\<lambda>s. False), update_requests = (\<lambda>s. None)\<rparr>
        \<lparr>states = [('''', ''Scene'')], current_state = None, next_state = Some ''''\<rparr>
     = (\<lparr>states = [('''', ''Scene'')], current_state = None, next_state = Some ''''\<rparr>, [])"
  by (simp add: change_state_def update_def transition_def menu_fallback_def scene_update_def)

text \<open>
  Claim C5, amended. \<open>change_state\<close> with a registered, non-empty name leaves the
  current scene as it is and records the name as pending. The next \<open>update\<close> then
  calls the old scene's \<open>exit\<close> and the \<open>enter\<close> of the scene registered under that
  name and clears the pending slot before the current scene's own update step; the
  named scene becomes current, unless its \<open>enter\<close> raises and a scene is registered
  as \<open>menu\<close>, in which case the menu scene is entered and becomes current.
  \<open>change_state\<close> with an unregistered name raises \<open>ValueError\<close> to the caller and
  returns no changed machine.
\<close>

theorem change_state_two_phase:
  assumes "map_of (states sm) name = Some s"
    and "name \<noteq> []"
    and "map_of (states sm) unregistered = None"
  shows "change_state name sm = Inr (sm\<lparr>next_state := Some name\<rparr>)
       \<and> transition env (sm\<lparr>next_state := Some name\<rparr>)
           = (sm\<lparr>current_state :=
                    Some (if enter_raises env s
                          then (case map_of (states sm) ''menu'' of None \<Rightarrow> s | Some m \<Rightarrow> m)
                          else s),
                  next_state := None\<rparr>,
              (case current_state sm of None \<Rightarrow> [] | Some c \<Rightarrow> [Exit c]) @ [Enter s]
                @ (if enter_raises env s
                   then (case map_of (states sm) ''menu'' of None \<Rightarrow> [] | Some m \<Rightarrow> [Enter m])
                   else []),
              enter_raises env s
                \<and> (case map_of (states sm) ''menu'' of None \<Rightarrow> False | Some m \<Rightarrow> enter_raises env m))
       \<and> current_state (fst (update env (sm\<lparr>next_state := Some name\<rparr>)))
           = Some (if enter_raises env s
                   then (case map_of (states sm) ''menu'' of None \<Rightarrow> s | Some m \<Rightarrow> m)
                   else s)
       \<and> change_state unregistered sm = Inl ValueError"
proof -
  have t: "transition env (sm\<lparr>next_state := Some name\<rparr>)
           = (sm\<lparr>current_state :=
                    Some (if enter_raises env s
                          then (case map_of (states sm) ''menu'' of None \<Rightarrow> s | Some m \<Rightarrow> m)
                          else s),
                  next_state := None\<rparr>,
              (case current_state sm of None \<Rightarrow> [] | Some c \<Rightarrow> [Exit c]) @ [Enter s]
                @ (if enter_raises env s
                   then (case map_of (states sm) ''menu'' of None \<Rightarrow> [] | Some m \<Rightarrow> [Enter m])
                   else []),
              enter_raises env s
                \<and> (case map_of (states sm) ''menu'' of None \<Rightarrow> False | Some m \<Rightarrow> enter_raises env m))"
    using assms(1,2)
    by (simp add: transition_def menu_fallback_def Let_def split: option.split)
  have u: "current_state (fst (update env (sm\<lparr>next_state := Some name\<rparr>)))
           = Some (if enter_raises env s
                   then (case map_of (states sm) ''menu'' of None \<Rightarrow> s | Some m \<Rightarrow> m)
                   else s)"
    by (simp only: update_current t fst_conv) simp
  show ?thesis
    using assms t u by (simp add: change_state_def)
qed

theorem change_state_two_phase_witness:
  "change_state ''terrain''
      \<lparr>states = [(''menu'', ''MenuScene''), (''terrain'', ''TerrainScene'')],
        current_state = Some ''MenuScene'', next_state = None\<rparr>
     = Inr \<lparr>states = [(''menu'', ''MenuScene''), (''terrain'', ''TerrainScene'')],
            current_state = Some ''MenuScene'', next_state = Some ''terrain''\<rparr>
   \<and> transition \<lparr>enter_raises = (\<lambda>s. False), update_requests = (\<lambda>s. None)\<rparr>
        \<lparr>states = [(''menu'', ''MenuScene''), (''terrain'', ''TerrainScene'')],
          current_state = Some ''MenuScene'', next_state = Some ''terrain''\<rparr>
     = (\<lparr>states = [(''menu'', ''MenuScene''), (''terrain'', ''TerrainScene'')],
          current_state = Some ''TerrainScene'', next_state = None\<rparr>,
        [Exit ''MenuScene'', Enter ''TerrainScene''], False)
   \<and> change_state ''settings''
      \<lparr>states = [(''menu'', ''MenuScene''), (''terrain'', ''TerrainScene'')],
        current_state = Some ''MenuScene'', next_state = None\<rparr>
     = Inl ValueError"
  using change_state_two_phase
    [of "\<lparr>states = [(''menu'', ''MenuScene''), (''terrain'', ''TerrainScene'')],
          current_state = Some ''MenuScene'', next_state = None\<rparr>"
        "''terrain''" "''TerrainScene''" "''settings''"
        "\<lparr>enter_raises = (\<lambda>s. False), update_requests = (\<lambda>s. None)\<rparr>"]
  by simp


section \<open>ensure\_date\_header is idempotent\<close>

lemma probe_in_date_header: "str_contains date_header_probe date_header"
  by (simp add: date_header_probe_def date_header_def)

lemma ensure_first_call:
  assumes "rows sh = hdr # rest"
    and "\<not> list_ex (str_contains date_header_probe) hdr"
    and "\<not> get_fails sh" and "\<not> update_fails sh"
  shows "ensure_date_header sh = (True, sh\<lparr>rows := (hdr @ [date_header]) # rest\<rparr>)"
  using assms
  by (simp add: ensure_date_header_def get_all_values_def sheet_update_def)

lemma ensure_present:
  assumes "rows sh = hdr # rest"
    and "list_ex (str_contains date_header_probe) hdr"
  shows "ensure_date_header sh = (False, sh)"
  using assms
  by (simp add: ensure_date_header_def get_all_values_def)

lemma ensure_later_calls:
  assumes "rows sh = hdr # rest"
    and "list_ex (str_contains date_header_probe) hdr"
  shows "((\<lambda>s. snd (ensure_date_header s)) ^^ n) sh = sh"
  by (induction n) (simp_all add: ensure_present [OF assms])

text \<open>
  Claim C9. On a worksheet whose header row has no cell with the record-added-date
  text, and whose service calls succeed, one call of \<open>ensure_date_header\<close> appends the
  header \<open>date_header\<close> once and returns \<open>True\<close>; a second call returns
  \<open>False\<close> and leaves the worksheet as it is; and after any number of calls, at least
  one, the header row has exactly one such column.
\<close>

theorem ensure_date_header_idempotent:
  assumes "rows sh = hdr # rest"
    and "\<not> list_ex (str_contains date_header_probe) hdr"
    and "\<not> get_fails sh" and "\<not> update_fails sh"
  shows "ensure_date_header sh = (True, sh\<lparr>rows := (hdr @ [date_header]) # rest\<rparr>)
       \<and> ensure_date_header (snd (ensure_date_header sh))
           = (False, snd (ensure_date_header sh))
       \<and> rows (((\<lambda>s. snd (ensure_date_header s)) ^^ Suc n) sh)
           = (hdr @ [date_header]) # rest
       \<and> filter (str_contains date_header_probe) (hdr @ [date_header]) = [date_header]
       \<and> count_list (hdr @ [date_header]) date_header = 1"
proof -
  let ?sh1 = "sh\<lparr>rows := (hdr @ [date_header]) # rest\<rparr>"
  have first_call: "ensure_date_header sh = (True, ?sh1)"
    by (rule ensure_first_call [OF assms])
  have r1: "rows ?sh1 = (hdr @ [date_header]) # rest" by simp
  have p1: "list_ex (str_contains date_header_probe) (hdr @ [date_header])"
    by (simp add: probe_in_date_header)
  have second_call: "ensure_date_header ?sh1 = (False, ?sh1)"
    by (rule ensure_present [OF r1 p1])
  have "((\<lambda>s. snd (ensure_date_header s)) ^^ Suc n) sh
          = ((\<lambda>s. snd (ensure_date_header s)) ^^ n) ?sh1"
    by (simp only: funpow_Suc_right o_apply first_call snd_conv)
  also have "\<dots> = ?sh1"
    by (rule ensure_later_calls [OF r1 p1])
  finally have many: "rows (((\<lambda>s. snd (ensure_date_header s)) ^^ Suc n) sh)
                        = (hdr @ [date_header]) # rest"
    by simp
  have none: "filter (str_contains date_header_probe) hdr = []"
    using assms(2) by (simp add: list_ex_iff filter_empty_conv)
  have no_copy: "count_list hdr date_header = 0"
    using assms(2) probe_in_date_header by (auto simp: list_ex_iff)
  show ?thesis
    using first_call second_call many none no_copy probe_in_date_header by simp
qed

theorem ensure_date_header_idempotent_witness:
  "ensure_date_header \<lparr>rows = [[[0x56, 0x69, 0x64, 0x65, 0x6F]], [[0x68]]],
                         get_fails = False, update_fails = False\<rparr>
     = (True, \<lparr>rows = [[[0x56, 0x69, 0x64, 0x65, 0x6F], date_header], [[0x68]]],
               get_fails = False, update_fails = False\<rparr>)
   \<and> ensure_date_header \<lparr>rows = [[[0x56, 0x69, 0x64, 0x65, 0x6F], date_header], [[0x68]]],
                          get_fails = False, update_fails = False\<rparr>
     = (False, \<lparr>rows = [[[0x56, 0x69, 0x64, 0x65, 0x6F], date_header], [[0x68]]],
                get_fails = False, update_fails = False\<rparr>)
   \<and> count_list [[0x56, 0x69, 0x64, 0x65, 0x6F], date_header] date_header = 1"
proof -
  let ?sh0 = "\<lparr>rows = [[[0x56, 0x69, 0x64, 0x65, 0x6F]], [[0x68]]],
               get_fails = False, update_fails = False\<rparr>"
  have r: "rows ?sh0 = [[0x56, 0x69, 0x64, 0x65, 0x6F]] # [[[0x68]]]" by simp
  have h: "\<not> list_ex (str_contains date_header_probe) [[0x56, 0x69, 0x64, 0x65, 0x6F]]"
    by (simp add: date_header_probe_def)
  have g: "\<not> get_fails ?sh0" and u: "\<not> update_fails ?sh0" by simp_all
  note t = ensure_date_header_idempotent [OF r h g u, of 0]
  have a: "ensure_date_header ?sh0
     = (True, \<lparr>rows = [[[0x56, 0x69, 0x64, 0x65, 0x6F], date_header], [[0x68]]],
               get_fails = False, update_fails = False\<rparr>)"
    using t [THEN conjunct1] by simp
  have b: "ensure_date_header (snd (ensure_date_header ?sh0))
             = (False, snd (ensure_date_header ?sh0))"
    by (rule t [THEN conjunct2, THEN conjunct1])
  have c: "count_list [[0x56, 0x69, 0x64, 0x65, 0x6F], date_header] date_header = 1"
    using t by simp
  show ?thesis
    using b c unfolding a by simp
qed


section \<open>The VK extractors on the URL of the test suite\<close>

text \<open>
  Claim C3. For the URL
  \<open>https://vk.com/clips/id1069245351?feedType=ownerFeed&owner=1069245351&z=clip1069245351_456239137\<close>
  the owner-id extractor returns \<open>"1069245351"\<close> and the video-id extractor returns
  \<open>"456239137"\<close>; both are pure functions of the URL.
\<close>

theorem vk_test_url_ids:
  "extract_vk_owner_id
     ''https://vk.com/clips/id1069245351?feedType=ownerFeed&owner=1069245351&z=clip1069245351_456239137''
     = Some ''1069245351''
   \<and> extract_vk_video_id
     ''https://vk.com/clips/id1069245351?feedType=ownerFeed&owner=1069245351&z=clip1069245351_456239137''
     = Some ''456239137''"
  by code_simp


section \<open>\_is\_short and the duration string\<close>

subsection \<open>What the matcher does on the duration pattern\<close>

lemma step_digit:
  "step (Set [D]) (s, g) = (case s of [] \<Rightarrow> [] | x # xs \<Rightarrow> if is_digit x then [(xs, g)] else [])"
  by (simp split: list.split)

lemma rounds_digits:
  "length s \<le> k \<Longrightarrow>
   rounds (step (Set [D])) k (s, g)
     = map (\<lambda>j. (drop j s, g)) (rev [0..<Suc (length (takeWhile is_digit s))])"
proof (induction k arbitrary: s)
  case 0
  then show ?case by simp
next
  case (Suc k)
  show ?case
  proof (cases s)
    case Nil
    then show ?thesis by simp
  next
    case (Cons x xs)
    show ?thesis
    proof (cases "is_digit x")
      case False
      then show ?thesis using Cons by simp
    next
      case True
      have len: "length xs \<le> k" using Suc.prems Cons by simp
      have up: "[0..<Suc (Suc (length (takeWhile is_digit xs)))]
                  = 0 # map Suc [0..<Suc (length (takeWhile is_digit xs))]"
        by (metis map_Suc_upt upt_conv_Cons zero_less_Suc)
      show ?thesis
        using True Cons Suc.IH [OF len]
        by (simp add: up rev_map comp_def del: upt_Suc)
    qed
  qed
qed


lemma upt_1_Suc: "[Suc 0..<Suc (Suc n)] = map Suc [0..<Suc n]"
  by (simp only: map_Suc_upt)

lemma plus_digits:
  "step digits1 (s, g)
     = map (\<lambda>j. (drop j s, g)) (rev [1..<Suc (length (takeWhile is_digit s))])"
proof (cases s)
  case Nil
  then show ?thesis by (simp add: digits1_def)
next
  case (Cons x xs)
  show ?thesis
  proof (cases "is_digit x")
    case False
    then show ?thesis using Cons by (simp add: digits1_def)
  next
    case True
    have "step digits1 (s, g) = rounds (step (Set [D])) (length xs) (xs, g)"
      using True Cons by (simp add: digits1_def)
    also have "\<dots> = map (\<lambda>j. (drop j xs, g)) (rev [0..<Suc (length (takeWhile is_digit xs))])"
      by (rule rounds_digits) simp
    also have "\<dots> = map (\<lambda>j. (drop j s, g)) (rev [1..<Suc (length (takeWhile is_digit s))])"
      using True Cons by (simp add: upt_1_Suc rev_map comp_def del: upt_Suc)
    finally show ?thesis .
  qed
qed

lemma grp_digits:
  "step (Grp i digits1) (s, g)
     = map (\<lambda>j. (drop j s, (i, take j s) # g)) (rev [1..<Suc (length (takeWhile is_digit s))])"
proof -
  have le: "length (takeWhile is_digit s) \<le> length s"
    by (rule length_takeWhile_le)
  have "\<And>j. j \<in> set (rev [1..<Suc (length (takeWhile is_digit s))])
          \<Longrightarrow> length s - (length s - j) = j"
    using le by auto
  then show ?thesis
    by (simp add: plus_digits comp_def del: upt_Suc cong: map_cong)
qed


lemma step_lit1:
  "step (lit [L]) (t, g) = (case t of [] \<Rightarrow> [] | x # xs \<Rightarrow> if x = L then [(xs, g)] else [])"
  by (simp split: list.split)

lemma digit_prefix_nth:
  assumes "j < length (takeWhile is_digit s)"
  shows "drop j s = s ! j # drop (Suc j) s" and "is_digit (s ! j)"
proof -
  have "j < length s"
    using assms length_takeWhile_le [of is_digit s] by simp
  then show "drop j s = s ! j # drop (Suc j) s"
    by (simp add: Cons_nth_drop_Suc)
  have "takeWhile is_digit s ! j \<in> set (takeWhile is_digit s)"
    using assms by simp
  then show "is_digit (s ! j)"
    using assms by (auto simp: takeWhile_nth dest: set_takeWhileD)
qed

lemma component_step:
  assumes "\<not> is_digit L"
  shows "step (Seq (Grp i digits1) (lit [L])) (s, g)
           = (case dropWhile is_digit s of
                [] \<Rightarrow> []
              | x # r \<Rightarrow>
                  if takeWhile is_digit s \<noteq> [] \<and> x = L
                  then [(r, (i, takeWhile is_digit s) # g)] else [])"
proof -
  let ?n = "length (takeWhile is_digit s)"
  let ?h = "\<lambda>j. (drop j s, (i, take j s) # g)"
  have e: "step (Seq (Grp i digits1) (lit [L])) (s, g)
             = concat (map (step (lit [L])) (map ?h (rev [1..<Suc ?n])))"
    by (simp only: step.simps(4) grp_digits)
  show ?thesis
  proof (cases ?n)
    case 0
    then have "takeWhile is_digit s = []" by simp
    then show ?thesis
      unfolding e by (cases "dropWhile is_digit s") (simp_all del: dropWhile_eq_Nil_conv)
  next
    case (Suc m)
    have fails: "step (lit [L]) (?h j) = []" if "j \<in> set (rev [1..<Suc m])" for j
    proof -
      have "j < ?n" using that Suc by auto
      from digit_prefix_nth [OF this] assms show ?thesis
        by (auto simp: step_lit1)
    qed
    have "concat (map (step (lit [L])) (map ?h (rev [1..<Suc (Suc m)])))
            = step (lit [L]) (?h (Suc m))
                @ concat (map (\<lambda>j. step (lit [L]) (?h j)) (rev [1..<Suc m]))"
      by (simp add: comp_def del: step.simps lit.simps)
    also have "concat (map (\<lambda>j. step (lit [L]) (?h j)) (rev [1..<Suc m])) = []"
      using fails by (simp del: upt_Suc step.simps lit.simps)
    finally have "step (Seq (Grp i digits1) (lit [L])) (s, g)
                    = step (lit [L]) (drop ?n s, (i, take ?n s) # g)"
      unfolding e Suc by simp
    moreover have "take ?n s = takeWhile is_digit s" "drop ?n s = dropWhile is_digit s"
      by (simp_all add: takeWhile_eq_take [symmetric] dropWhile_eq_drop [symmetric])
    moreover have "takeWhile is_digit s \<noteq> []" using Suc by auto
    ultimately show ?thesis
      by (cases "dropWhile is_digit s")
         (simp_all add: step_lit1 del: step.simps lit.simps dropWhile_eq_Nil_conv)
  qed
qed

lemma opt_component:
  assumes "\<not> is_digit L"
  shows "step (Opt (Seq (Grp i digits1) (lit [L]))) st \<noteq> []"
    and "hd (step (Opt (Seq (Grp i digits1) (lit [L]))) st) = after_component i L st"
proof -
  obtain s g where st: "st = (s, g)" by (cases st)
  show "step (Opt (Seq (Grp i digits1) (lit [L]))) st \<noteq> []" by simp
  have "step (Opt (Seq (Grp i digits1) (lit [L]))) st
          = step (Seq (Grp i digits1) (lit [L])) (s, g) @ [st]"
    by (simp add: st)
  also have "\<dots> = (case dropWhile is_digit s of
                [] \<Rightarrow> []
              | x # r \<Rightarrow>
                  if takeWhile is_digit s \<noteq> [] \<and> x = L
                  then [(r, (i, takeWhile is_digit s) # g)] else []) @ [st]"
    by (simp only: component_step [OF assms])
  finally have e: "step (Opt (Seq (Grp i digits1) (lit [L]))) st
       = (case dropWhile is_digit s of
                [] \<Rightarrow> []
              | x # r \<Rightarrow>
                  if takeWhile is_digit s \<noteq> [] \<and> x = L
                  then [(r, (i, takeWhile is_digit s) # g)] else []) @ [st]" .
  show "hd (step (Opt (Seq (Grp i digits1) (lit [L]))) st) = after_component i L st"
    unfolding e
    by (cases "dropWhile is_digit s")
       (simp_all add: after_component_def st del: dropWhile_eq_Nil_conv)
qed

lemma seq_hd:
  assumes "step a st \<noteq> []" and "step b (hd (step a st)) \<noteq> []"
  shows "step (Seq a b) st \<noteq> []"
    and "hd (step (Seq a b) st) = hd (step b (hd (step a st)))"
proof -
  obtain x xs where a: "step a st = x # xs" using assms(1) by (cases "step a st") auto
  then have b: "step b x \<noteq> []" using assms(2) by simp
  show "step (Seq a b) st \<noteq> []" using a b by simp
  show "hd (step (Seq a b) st) = hd (step b (hd (step a st)))" using a b by simp
qed

lemma letters_not_digits:
  "\<not> is_digit CHR ''H''" "\<not> is_digit CHR ''M''" "\<not> is_digit CHR ''S''"
  by (simp_all add: is_digit_def)

lemma duration_tail:
  "step (Seq (Opt (Seq (Grp 1 digits1) (lit ''H'')))
         (Seq (Opt (Seq (Grp 2 digits1) (lit ''M'')))
              (Opt (Seq (Grp 3 digits1) (lit ''S''))))) st \<noteq> []"
  "hd (step (Seq (Opt (Seq (Grp 1 digits1) (lit ''H'')))
         (Seq (Opt (Seq (Grp 2 digits1) (lit ''M'')))
              (Opt (Seq (Grp 3 digits1) (lit ''S''))))) st)
     = after_component 3 CHR ''S'' (after_component 2 CHR ''M'' (after_component 1 CHR ''H'' st))"
proof -
  let ?o1 = "Opt (Seq (Grp 1 digits1) (lit ''H''))"
  let ?o2 = "Opt (Seq (Grp 2 digits1) (lit ''M''))"
  let ?o3 = "Opt (Seq (Grp 3 digits1) (lit ''S''))"
  note o1 = opt_component [OF letters_not_digits(1), of 1]
  note o2 = opt_component [OF letters_not_digits(2), of 2]
  note o3 = opt_component [OF letters_not_digits(3), of 3]
  have s23: "step (Seq ?o2 ?o3) x \<noteq> []"
    "hd (step (Seq ?o2 ?o3) x) = after_component 3 CHR ''S'' (after_component 2 CHR ''M'' x)" for x
    using seq_hd [of ?o2 x ?o3] o2 [of x] o3 by simp_all
  show "step (Seq ?o1 (Seq ?o2 ?o3)) st \<noteq> []"
    using seq_hd(1) [of ?o1 st "Seq ?o2 ?o3"] o1 [of st] s23 by simp
  show "hd (step (Seq ?o1 (Seq ?o2 ?o3)) st)
     = after_component 3 CHR ''S'' (after_component 2 CHR ''M'' (after_component 1 CHR ''H'' st))"
    using seq_hd(2) [of ?o1 st "Seq ?o2 ?o3"] o1 [of st] s23 by simp
qed


lemma match_at_hd:
  assumes "step r (s, []) \<noteq> []"
  shows "match_at r pre s
           = Some \<lparr>before = pre,
                   matched = take (length s - length (fst (hd (step r (s, []))))) s,
                   after = fst (hd (step r (s, []))),
                   groups = snd (hd (step r (s, [])))\<rparr>"
  using assms by (cases "step r (s, [])") (auto simp: match_at_def)

lemma step_lit_PT:
  "step (lit ''PT'') (d, g)
     = (case d of
          p # t # d1 \<Rightarrow> if p = CHR ''P'' \<and> t = CHR ''T'' then [(d1, g)] else []
        | _ \<Rightarrow> [])"
  by (simp split: list.split)

lemma re_match_duration_none:
  assumes "\<not> prefix ''PT'' d"
  shows "re_match pat_duration d = None"
proof -
  have "step (lit ''PT'') (d, []) = []"
    using assms by (auto simp: step_lit_PT prefix_def split: list.split)
  then have "step pat_duration (d, []) = []"
    by (simp only: pat_duration_def step.simps(4)) simp
  then show ?thesis
    by (simp add: re_match_def match_at_def)
qed

lemma re_match_duration_some:
  "groups (the (re_match pat_duration (CHR ''P'' # CHR ''T'' # d1)))
     = snd (after_component 3 CHR ''S'' (after_component 2 CHR ''M''
              (after_component 1 CHR ''H'' (d1, []))))"
  "re_match pat_duration (CHR ''P'' # CHR ''T'' # d1) \<noteq> None"
proof -
  let ?tail = "Seq (Opt (Seq (Grp 1 digits1) (lit ''H'')))
         (Seq (Opt (Seq (Grp 2 digits1) (lit ''M'')))
              (Opt (Seq (Grp 3 digits1) (lit ''S''))))"
  have "step (lit ''PT'') (CHR ''P'' # CHR ''T'' # d1, []) = [(d1, [])]"
    by (simp only: step_lit_PT) simp
  then have e: "step pat_duration (CHR ''P'' # CHR ''T'' # d1, []) = step ?tail (d1, [])"
    by (simp only: pat_duration_def step.simps(4)) simp
  have ne: "step pat_duration (CHR ''P'' # CHR ''T'' # d1, []) \<noteq> []"
    unfolding e by (rule duration_tail(1))
  show "groups (the (re_match pat_duration (CHR ''P'' # CHR ''T'' # d1)))
     = snd (after_component 3 CHR ''S'' (after_component 2 CHR ''M''
              (after_component 1 CHR ''H'' (d1, []))))"
    unfolding re_match_def match_at_hd [OF ne] by (simp only: e duration_tail(2)) simp
  show "re_match pat_duration (CHR ''P'' # CHR ''T'' # d1) \<noteq> None"
    unfolding re_match_def match_at_hd [OF ne] by simp
qed

lemma after_component_rest: "fst (after_component i L (s, g)) = snd (component L s)"
  by (cases "dropWhile is_digit s")
     (simp_all add: after_component_def component_def del: dropWhile_eq_Nil_conv)

lemma component_length: "length (snd (component L s)) \<le> length s"
proof (cases "dropWhile is_digit s")
  case Nil
  then show ?thesis by (simp add: component_def del: dropWhile_eq_Nil_conv)
next
  case (Cons x r)
  have "length (dropWhile is_digit s) \<le> length s"
    by (rule length_dropWhile_le)
  then show ?thesis using Cons by (simp add: component_def)
qed

lemma py_int_digits_run:
  assumes "takeWhile is_digit s \<noteq> []" and "length s \<le> int_max_str_digits"
  shows "py_int_digits (takeWhile is_digit s) = Inr (int (digits_value (takeWhile is_digit s)))"
proof -
  have "list_all is_digit (takeWhile is_digit s)"
    by (auto simp: list_all_iff dest: set_takeWhileD)
  moreover have "length (takeWhile is_digit s) \<le> int_max_str_digits"
    using assms(2) length_takeWhile_le [of is_digit s] by simp
  ultimately show ?thesis
    using assms(1) by (simp add: py_int_digits_def)
qed

lemma after_component_group:
  assumes "length s \<le> int_max_str_digits" and "map_of g i = None"
  shows "(case map_of (snd (after_component i L (s, g))) i of
            None \<Rightarrow> Inr 0
          | Some x \<Rightarrow> if x = [] then Inr 0 else py_int_digits x)
           = Inr (int (fst (component L s)))"
proof (cases "dropWhile is_digit s")
  case Nil
  then show ?thesis
    using assms(2) by (simp add: after_component_def component_def del: dropWhile_eq_Nil_conv)
next
  case (Cons x r)
  show ?thesis
  proof (cases "takeWhile is_digit s \<noteq> [] \<and> x = L")
    case True
    then show ?thesis
      using Cons py_int_digits_run [OF _ assms(1)]
      by (simp add: after_component_def component_def)
  next
    case False
    then show ?thesis
      using Cons assms(2) by (auto simp: after_component_def component_def)
  qed
qed

lemma after_component_other:
  "j \<noteq> i \<Longrightarrow> map_of (snd (after_component i L (s, g))) j = map_of g j"
  by (cases "dropWhile is_digit s")
     (simp_all add: after_component_def del: dropWhile_eq_Nil_conv)


lemma is_short_no_prefix: "\<not> prefix ''PT'' d \<Longrightarrow> \<not> is_short d"
  by (simp add: is_short_def re_match_duration_none)

lemma leading_seconds_no_prefix: "\<not> prefix ''PT'' d \<Longrightarrow> leading_seconds d = None"
  by (auto simp: leading_seconds_def duration_parts_def prefix_def split: list.split)

lemma is_short_leading:
  assumes "length d \<le> int_max_str_digits"
  shows "is_short d = (case leading_seconds d of None \<Rightarrow> False | Some t \<Rightarrow> t \<le> 60)"
proof (cases "prefix ''PT'' d")
  case False
  then show ?thesis
    by (simp add: is_short_no_prefix leading_seconds_no_prefix)
next
  case True
  then obtain d1 where d: "d = CHR ''P'' # CHR ''T'' # d1"
    by (auto simp: prefix_def)
  let ?st1 = "after_component 1 CHR ''H'' (d1, [])"
  let ?st2 = "after_component 2 CHR ''M'' ?st1"
  let ?st3 = "after_component 3 CHR ''S'' ?st2"
  obtain h d2 where c1: "component CHR ''H'' d1 = (h, d2)" by (cases "component CHR ''H'' d1")
  obtain m d3 where c2: "component CHR ''M'' d2 = (m, d3)" by (cases "component CHR ''M'' d2")
  obtain s d4 where c3: "component CHR ''S'' d3 = (s, d4)" by (cases "component CHR ''S'' d3")
  obtain g1 where st1: "?st1 = (d2, g1)"
    using after_component_rest [of 1 "CHR ''H''" d1 "[]"] c1 by (cases ?st1) simp
  obtain g2 where st2: "?st2 = (d3, g2)"
    using after_component_rest [of 2 "CHR ''M''" d2 g1] c2 st1 by (cases ?st2) simp
  obtain g3 where st3: "?st3 = (d4, g3)"
    using after_component_rest [of 3 "CHR ''S''" d3 g2] c3 st2 by (cases ?st3) simp
  have l1: "length d1 \<le> int_max_str_digits" using assms d by simp
  have l2: "length d2 \<le> int_max_str_digits"
    using component_length [of "CHR ''H''" d1] c1 l1 by simp
  have l3: "length d3 \<le> int_max_str_digits"
    using component_length [of "CHR ''M''" d2] c2 l2 by simp
  have g1_2: "map_of g1 2 = None" and g1_3: "map_of g1 3 = None"
    using after_component_other [of 2 1 "CHR ''H''" d1 "[]"]
          after_component_other [of 3 1 "CHR ''H''" d1 "[]"] st1 by simp_all
  have g2_3: "map_of g2 3 = None"
    using after_component_other [of 3 2 "CHR ''M''" d2 g1] st1 st2 g1_3 by simp
  have v1: "(case map_of g1 1 of None \<Rightarrow> Inr 0
             | Some x \<Rightarrow> if x = [] then Inr 0 else py_int_digits x) = Inr (int h)"
    using after_component_group [OF l1, of "[]" 1 "CHR ''H''"] st1 c1 by simp
  have v2: "(case map_of g2 2 of None \<Rightarrow> Inr 0
             | Some x \<Rightarrow> if x = [] then Inr 0 else py_int_digits x) = Inr (int m)"
    using after_component_group [OF l2 g1_2, of "CHR ''M''"] st1 st2 c2 by simp
  have v3: "(case map_of g3 3 of None \<Rightarrow> Inr 0
             | Some x \<Rightarrow> if x = [] then Inr 0 else py_int_digits x) = Inr (int s)"
    using after_component_group [OF l3 g2_3, of "CHR ''S''"] st2 st3 c3 by simp
  have k1: "map_of g3 1 = map_of g1 1"
    using after_component_other [of 1 3 "CHR ''S''" d3 g2]
          after_component_other [of 1 2 "CHR ''M''" d2 g1] st1 st2 st3 by simp
  have k2: "map_of g3 2 = map_of g2 2"
    using after_component_other [of 2 3 "CHR ''S''" d3 g2] st2 st3 by simp
  obtain mt where mt: "re_match pat_duration d = Some mt" and gm: "groups mt = g3"
    using re_match_duration_some [of d1] st3 d by (cases "re_match pat_duration d") auto
  have "is_short d = (int h * 3600 + int m * 60 + int s \<le> 60)"
    using v1 v2 v3 k1 k2
    by (simp add: is_short_def d [symmetric] mt group_int_or_0_def group_def gm)
       (simp add: d)
  moreover have "leading_seconds d = Some (h * 3600 + m * 60 + s)"
    by (simp add: leading_seconds_def duration_parts_def d c1 c2 c3)
  moreover have "(int h * 3600 + int m * 60 + int s \<le> 60) = (h * 3600 + m * 60 + s \<le> 60)"
    by arith
  ultimately show ?thesis
    by simp
qed

text \<open>
  What the method computes: a video is a Short exactly when its duration string
  starts with \<open>PT\<close> and the parts \<open>[H]h[M]m[S]s\<close> that directly follow (each
  optional, in this order) total at most 60 seconds, whatever text comes after
  them. On a string that is wholly of the form \<open>PT[H]h[M]m[S]s\<close> this is the test
  that the duration is at most 60 seconds. The statement is for strings within the
  interpreter's limit on the length of an integer string.
\<close>

lemma is_short_leading_parts:
  assumes "length d \<le> int_max_str_digits"
  shows "(is_short d \<longleftrightarrow> (\<exists>t. leading_seconds d = Some t \<and> t \<le> 60))
       \<and> (\<forall>t. iso_duration_seconds d = Some t \<longrightarrow> (is_short d \<longleftrightarrow> t \<le> 60))
       \<and> (\<not> prefix ''PT'' d \<longrightarrow> \<not> is_short d)
       \<and> is_short ''PT1M0S'' \<and> is_short ''PT45S'' \<and> \<not> is_short ''PT1M1S''
       \<and> \<not> is_short []"
proof -
  note eq = is_short_leading [OF assms]
  have a: "is_short d \<longleftrightarrow> (\<exists>t. leading_seconds d = Some t \<and> t \<le> 60)"
    unfolding eq by (cases "leading_seconds d") simp_all
  have b: "is_short d \<longleftrightarrow> t \<le> 60" if "iso_duration_seconds d = Some t" for t
  proof -
    have "leading_seconds d = Some t"
      using that
      by (auto simp: iso_duration_seconds_def leading_seconds_def
               split: option.splits prod.splits if_splits)
    then show ?thesis unfolding eq by simp
  qed
  have c: "is_short ''PT1M0S''" "is_short ''PT45S''" "\<not> is_short ''PT1M1S''"
    "\<not> is_short []"
    by code_simp+
  show ?thesis
    using a b c is_short_no_prefix [of d] by blast
qed

text \<open>
  Claim C7. \<open>PT1M0S\<close> (60 seconds) and \<open>PT45S\<close> are Shorts, \<open>PT1M1S\<close> (61 seconds)
  is not, and neither is the empty string or a string that does not start with
  \<open>PT\<close>, such as \<open>abc\<close>. The string \<open>PTxyz\<close> does not parse as a duration
  \<open>PT[H]h[M]m[S]s\<close>, yet the method classifies it as a Short: \<open>re.match\<close> anchors the
  pattern at the start of the string only and every part behind \<open>PT\<close> is optional,
  so the match succeeds with no group and the total is 0 seconds.
\<close>

theorem is_short_listed_durations:
  "is_short ''PT1M0S'' \<and> is_short ''PT45S'' \<and> \<not> is_short ''PT1M1S''
   \<and> \<not> is_short [] \<and> \<not> is_short ''abc''
   \<and> iso_duration_seconds ''PTxyz'' = None \<and> is_short ''PTxyz''"
  by code_simp


section \<open>Python floats: rounding\<close>

lemma round_half_even_cases:
  "round_half_even x = \<lfloor>x\<rfloor> \<or> (round_half_even x = \<lfloor>x\<rfloor> + 1 \<and> of_int \<lfloor>x\<rfloor> < x)"
  by (auto simp: round_half_even_def Let_def)

lemma round_half_even_lower:
  assumes "of_int n \<le> x"
  shows "n \<le> round_half_even x"
proof -
  have "n \<le> \<lfloor>x\<rfloor>" using assms by (simp add: le_floor_iff)
  then show ?thesis using round_half_even_cases [of x] by auto
qed

lemma round_half_even_upper:
  assumes "x \<le> of_int n"
  shows "round_half_even x \<le> n"
proof -
  have f: "\<lfloor>x\<rfloor> \<le> n" using assms by (simp add: floor_le_iff)
  consider "round_half_even x = \<lfloor>x\<rfloor>"
    | "round_half_even x = \<lfloor>x\<rfloor> + 1" "of_int \<lfloor>x\<rfloor> < x"
    using round_half_even_cases [of x] by auto
  then show ?thesis
  proof cases
    case 1
    then show ?thesis using f by simp
  next
    case 2
    have "\<lfloor>x\<rfloor> \<noteq> n"
    proof
      assume "\<lfloor>x\<rfloor> = n"
      then have "of_int n < x" using 2(2) by simp
      then show False using assms by simp
    qed
    then show ?thesis using f 2(1) by simp
  qed
qed

lemma pow2_pos: "0 < pow2 e"
  by (simp add: pow2_def)

text \<open>
  The overflow test of \<open>round64\<close> read off the exponent: a number that is not
  negative reaches \<open>2^1024\<close> exactly when its exponent reaches 1024.
\<close>

lemma overflow_iff:
  assumes "0 \<le> v"
  shows "(pow2 1024 \<le> v) = (1024 \<le> ilog2 v)"
proof (cases "1 \<le> v")
  case True
  have "(pow2 1024 \<le> v) = ((2 :: int) ^ 1024 \<le> \<lfloor>v\<rfloor>)"
    by (simp add: pow2_def le_floor_iff)
  also have "\<dots> = (\<not> bitlen \<lfloor>v\<rfloor> \<le> int 1024)"
    unfolding bitlen_le_iff_power by (simp add: not_less)
  also have "\<dots> = (1024 \<le> ilog2 v)"
    using True by (simp add: ilog2_def not_le)
  finally show ?thesis .
next
  case False
  have "(1 :: rat) \<le> 2 ^ 1024" by (rule one_le_power) simp
  then have "1 \<le> pow2 1024" by (simp add: pow2_def)
  then have a: "\<not> pow2 1024 \<le> v" using False by simp
  have "ilog2 v \<le> 0"
    using False bitlen_nonneg [of "\<lceil>1 / v\<rceil> - 1"] by (simp add: ilog2_def)
  then show ?thesis using a by simp
qed

text \<open>
  The same function with the overflow test on the exponent, as the equation that
  evaluation uses: it spares the comparison with the 309-digit number \<open>2^1024\<close>.
\<close>

lemma round64_code [code]:
  "round64 q =
     (if q = 0 then Finite 0
      else
        (let a = \<bar>q\<bar>;
             e = max (ilog2 a - 52) (- 1074);
             v = of_int (round_half_even (a / pow2 e)) * pow2 e
         in if 1024 \<le> ilog2 v then (if 0 < q then PosInf else NegInf)
            else Finite (if 0 < q then v else - v)))"
proof -
  define e where "e = max (ilog2 \<bar>q\<bar> - 52) (- 1074)"
  define v where "v = (of_int (round_half_even (\<bar>q\<bar> / pow2 e)) :: rat) * pow2 e"
  have "(of_int 0 :: rat) \<le> \<bar>q\<bar> / pow2 e"
    using pow2_pos [of e] by simp
  then have "0 \<le> round_half_even (\<bar>q\<bar> / pow2 e)"
    by (rule round_half_even_lower)
  then have "0 \<le> v"
    using pow2_pos [of e] by (simp add: v_def)
  then have "(pow2 1024 \<le> v) = (1024 \<le> ilog2 v)"
    by (rule overflow_iff)
  then show ?thesis
    unfolding round64_def Let_def e_def [symmetric] v_def [symmetric] by simp
qed

text \<open>Rounding keeps a number between 1 and 100 there: both bounds are floats.\<close>

lemma round64_range:
  assumes "1 \<le> q" and "q \<le> 100"
  shows "\<exists>v. round64 q = Finite v \<and> 1 \<le> v \<and> v \<le> 100"
proof -
  define e where "e = max (ilog2 q - 52) (- 1074)"
  define k where "k = nat (- e)"
  have q0: "q \<noteq> 0" "0 < q" "\<bar>q\<bar> = q" using assms(1) by simp_all
  have "\<lfloor>q\<rfloor> < 2 ^ 7"
    using assms(2) by (simp add: floor_less_iff)
  then have "bitlen \<lfloor>q\<rfloor> \<le> 7"
    by (simp add: bitlen_le_iff_power)
  then have "ilog2 q \<le> 6"
    using assms(1) q0 by (simp add: ilog2_def)
  then have e0: "e \<le> 0" by (simp add: e_def)
  have p: "pow2 e = 1 / 2 ^ k"
    using e0 by (cases "e = 0") (simp_all add: pow2_def k_def)
  define m where "m = round_half_even (q * 2 ^ k)"
  have lo: "2 ^ k \<le> m"
  proof -
    have "(of_int (2 ^ k) :: rat) \<le> q * 2 ^ k"
      using assms(1) by simp
    then show ?thesis unfolding m_def by (rule round_half_even_lower)
  qed
  have hi: "m \<le> 100 * 2 ^ k"
  proof -
    have "q * 2 ^ k \<le> (of_int (100 * 2 ^ k) :: rat)"
      using assms(2) by simp
    then show ?thesis unfolding m_def by (rule round_half_even_upper)
  qed
  define v where "v = (of_int m :: rat) / 2 ^ k"
  have "(2 ^ k :: rat) \<le> of_int m"
    using lo by (metis of_int_le_iff of_int_numeral of_int_power)
  then have v1: "1 \<le> v"
    by (simp add: v_def le_divide_eq)
  have "(of_int m :: rat) \<le> 100 * 2 ^ k"
    using hi by (metis of_int_le_iff of_int_numeral of_int_power of_int_mult)
  then have v2: "v \<le> 100"
    by (simp add: v_def divide_le_eq)
  have big: "(100 :: rat) < pow2 1024"
  proof -
    have "(100 :: rat) < 2 ^ 7" by simp
    also have "(2 :: rat) ^ 7 \<le> 2 ^ 1024" by (rule power_increasing) simp_all
    finally show ?thesis by (simp add: pow2_def)
  qed
  have r: "round64 q
             = (if pow2 1024 \<le> of_int (round_half_even (q / pow2 e)) * pow2 e then PosInf
                else Finite (of_int (round_half_even (q / pow2 e)) * pow2 e))"
    using q0 by (simp add: round64_def Let_def e_def)
  have "of_int (round_half_even (q / pow2 e)) * pow2 e = v"
    by (simp add: p m_def v_def)
  then have "round64 q = Finite v"
    using v2 big unfolding r by simp
  then show ?thesis using v1 v2 by blast
qed


section \<open>\_parse\_number on the listed inputs\<close>

text \<open>
  Claim C2. \<open>_parse_number\<close> gives 1200000 for \<open>"1.2M"\<close>, 3000 for \<open>"3K"\<close>, 500 for
  \<open>"500"\<close> and 0 for the empty string. For \<open>"abc"\<close> it does not return 0: the upper-case
  text contains \<open>B\<close>, so the suffix branch takes the first element of an empty list
  of numbers and raises \<open>IndexError\<close>. A text without the letters k, m and b and
  without a number, such as \<open>"xyz"\<close>, gives 0 in the other branch, which tests the
  list first.
\<close>

theorem parse_number_listed_inputs:
  "parse_number ''1.2M'' = Inr 1200000
   \<and> parse_number ''3K'' = Inr 3000
   \<and> parse_number ''500'' = Inr 500
   \<and> parse_number [] = Inr 0
   \<and> parse_number ''xyz'' = Inr 0
   \<and> parse_number ''abc'' = Inl IndexError"
  by code_simp


section \<open>calculate\_video\_difference stays between 1 and 100\<close>

lemma clamp_range:
  "\<exists>v. py_max2 (Finite 1) (py_min2 (Finite 100) t) = Finite v \<and> 1 \<le> v \<and> v \<le> 100"
  by (cases t) (auto simp: py_max2_def py_min2_def)

lemma py_round1_range:
  assumes "1 \<le> v" and "v \<le> 100"
  shows "\<exists>w. py_round1 (Finite v) = Finite w \<and> 1 \<le> w \<and> w \<le> 100"
proof -
  have "(of_int 10 :: rat) \<le> v * 10" using assms(1) by simp
  then have lo: "10 \<le> round_half_even (v * 10)" by (rule round_half_even_lower)
  have "v * 10 \<le> (of_int 1000 :: rat)" using assms(2) by simp
  then have hi: "round_half_even (v * 10) \<le> 1000" by (rule round_half_even_upper)
  have "(10 :: rat) \<le> of_int (round_half_even (v * 10))"
    using lo by (metis of_int_le_iff of_int_numeral)
  then have a: "(1 :: rat) \<le> of_int (round_half_even (v * 10)) / 10" by simp
  have "(of_int (round_half_even (v * 10)) :: rat) \<le> 1000"
    using hi by (metis of_int_le_iff of_int_numeral)
  then have b: "(of_int (round_half_even (v * 10)) :: rat) / 10 \<le> 100" by simp
  show ?thesis
    using round64_range [OF a b] by (simp add: py_round1_def)
qed

lemma weighted_difference_range:
  assumes "weighted_difference orig proc = Inr r"
  shows "\<exists>v. r = Finite v \<and> 1 \<le> v \<and> v \<le> 100"
proof -
  obtain t where "r = py_round1 (py_max2 (Finite 1) (py_min2 (Finite 100) t))"
    using assms
    by (auto simp: weighted_difference_def Let_def split: sum.splits)
  moreover obtain v where "py_max2 (Finite 1) (py_min2 (Finite 100) t) = Finite v"
    "1 \<le> v" "v \<le> 100"
    using clamp_range [of t] by blast
  ultimately show ?thesis
    using py_round1_range [of v] by simp
qed

lemma video_difference_range:
  "\<exists>v. calculate_video_difference inspect original_path processed_path = Finite v
        \<and> 1 \<le> v \<and> v \<le> 100"
proof (cases "inspect original_path")
  case (Inl e)
  then show ?thesis by (simp add: calculate_video_difference_def)
next
  case o: (Inr orig)
  show ?thesis
  proof (cases "inspect processed_path")
    case (Inl e)
    then show ?thesis using o by (simp add: calculate_video_difference_def)
  next
    case p: (Inr proc)
    show ?thesis
    proof (cases "weighted_difference orig proc")
      case (Inl e)
      then show ?thesis using o p by (simp add: calculate_video_difference_def)
    next
      case (Inr r)
      then show ?thesis
        using o p weighted_difference_range [OF Inr]
        by (simp add: calculate_video_difference_def)
    qed
  qed
qed

lemma float_diff_pct_formula:
  assumes "0 < u" and "round64 (u - w) = Finite r1" and "round64 (\<bar>r1\<bar> / u) = Finite r2"
  shows "float_diff_pct (Finite u) (Finite w) = Inr (round64 (r2 * 100))"
proof -
  have "fsub (Finite u) (Finite w) = Finite r1"
    using assms(2) by (simp add: fsub_def)
  then have "fdiv (fabs (fsub (Finite u) (Finite w))) (Finite u) = Inr (Finite r2)"
    using assms(1,3) by simp
  then show ?thesis
    using assms(1) by (simp add: float_diff_pct_def)
qed

lemma size_diff_pct_formula:
  assumes "0 < m" and "round64 (of_int \<bar>int m - int n\<bar> / of_int (int m)) = Finite r"
  shows "size_diff_pct m n = Inr (round64 (r * 100))"
  using assms by (simp add: size_diff_pct_def int_truediv_def)

text \<open>
  Claim C4. For every inspection function and every two paths,
  \<open>calculate_video_difference\<close> returns a finite float between 1 and 100. When the
  inspection of either file raises it returns 3. When both files are inspected it
  returns the weighted sum of the three percentages, with the float weights 0.4,
  0.3 and 0.3, clamped into the floats from 1 to 100 and rounded to one decimal.
  The percentage of two durations or frame rates \<open>u > 0\<close> and \<open>w\<close> is
  \<open>\<bar>u - w\<bar> / u * 100\<close> with the difference, the quotient and the product each
  rounded to a float; the percentage of two sizes is the same with the difference
  taken exactly, on integers. A percentage is 0 when the original value is 0.
\<close>

theorem video_difference_clamped:
  "(\<exists>v. calculate_video_difference inspect original_path processed_path = Finite v
         \<and> 1 \<le> v \<and> v \<le> 100)
   \<and> (\<forall>e. inspect original_path = Inl e \<or> inspect processed_path = Inl e
          \<longrightarrow> calculate_video_difference inspect original_path processed_path = Finite 3)
   \<and> (\<forall>orig proc d s f a b.
         inspect original_path = Inr orig \<and> inspect processed_path = Inr proc
         \<and> float_diff_pct (duration orig) (duration proc) = Inr d
         \<and> size_diff_pct (file_size orig) (file_size proc) = Inr s
         \<and> float_diff_pct (fps orig) (fps proc) = Inr f
         \<and> int_truediv (int (file_size orig)) 1024 = Inr a
         \<and> int_truediv (int (file_size proc)) 1024 = Inr b
         \<longrightarrow> calculate_video_difference inspect original_path processed_path
               = py_round1 (py_max2 (Finite 1) (py_min2 (Finite 100)
                   (fadd (fadd (fmul d (round64 (4 / 10))) (fmul s (round64 (3 / 10))))
                         (fmul f (round64 (3 / 10)))))))
   \<and> (\<forall>u w r1 r2.
         0 < u \<and> round64 (u - w) = Finite r1 \<and> round64 (\<bar>r1\<bar> / u) = Finite r2
         \<longrightarrow> float_diff_pct (Finite u) (Finite w) = Inr (round64 (r2 * 100)))
   \<and> (\<forall>m n r.
         0 < m \<and> round64 (of_int \<bar>int m - int n\<bar> / of_int (int m)) = Finite r
         \<longrightarrow> size_diff_pct m n = Inr (round64 (r * 100)))
   \<and> float_diff_pct (Finite 0) other = Inr (Finite 0)
   \<and> size_diff_pct 0 other_size = Inr (Finite 0)"
proof -
  have fail: "calculate_video_difference inspect original_path processed_path = Finite 3"
    if "inspect original_path = Inl e \<or> inspect processed_path = Inl e" for e
    using that by (auto simp: calculate_video_difference_def split: sum.splits)
  have formula: "calculate_video_difference inspect original_path processed_path
               = py_round1 (py_max2 (Finite 1) (py_min2 (Finite 100)
                   (fadd (fadd (fmul d (round64 (4 / 10))) (fmul s (round64 (3 / 10))))
                         (fmul f (round64 (3 / 10))))))"
    if "inspect original_path = Inr orig" "inspect processed_path = Inr proc"
      "float_diff_pct (duration orig) (duration proc) = Inr d"
      "size_diff_pct (file_size orig) (file_size proc) = Inr s"
      "float_diff_pct (fps orig) (fps proc) = Inr f"
      "int_truediv (int (file_size orig)) 1024 = Inr a"
      "int_truediv (int (file_size proc)) 1024 = Inr b"
    for orig proc d s f a b
    using that by (simp add: calculate_video_difference_def weighted_difference_def Let_def)
  have zero: "float_diff_pct (Finite 0) other = Inr (Finite 0)"
    "size_diff_pct 0 other_size = Inr (Finite 0)"
    by (simp_all add: float_diff_pct_def size_diff_pct_def)
  show ?thesis
    using video_difference_range [of inspect original_path processed_path] fail formula zero
      float_diff_pct_formula size_diff_pct_formula
    by blast
qed

theorem video_difference_clamped_witness:
  "calculate_video_difference
     (\<lambda>p. if p = ''original.mp4''
          then Inr \<lparr>duration = Finite 10, fps = Finite 30, file_size = 1000\<rparr>
          else if p = ''processed.mp4''
          then Inr \<lparr>duration = Finite 20, fps = Finite 24, file_size = 1500\<rparr>
          else Inl OtherException)
     ''original.mp4'' ''processed.mp4'' = Finite 61
   \<and> float_diff_pct (Finite 10) (Finite 20) = Inr (Finite 100)
   \<and> size_diff_pct 1000 1500 = Inr (Finite 50)
   \<and> float_diff_pct (Finite 30) (Finite 24) = Inr (Finite 20)
   \<and> calculate_video_difference
     (\<lambda>p. if p = ''original.mp4''
          then Inr \<lparr>duration = Finite 10, fps = Finite 30, file_size = 1000\<rparr>
          else if p = ''processed.mp4''
          then Inr \<lparr>duration = Finite 20, fps = Finite 24, file_size = 1500\<rparr>
          else Inl OtherException)
     ''original.mp4'' ''missing.mp4'' = Finite 3"
proof -
  let ?i = "\<lambda>p. if p = ''original.mp4''
          then Inr \<lparr>duration = Finite 10, fps = Finite 30, file_size = 1000\<rparr>
          else if p = ''processed.mp4''
          then Inr \<lparr>duration = Finite 20, fps = Finite 24, file_size = 1500\<rparr>
          else Inl OtherException"
  note t1 = video_difference_clamped [of ?i "''original.mp4''" "''processed.mp4''"]
  note t2 = video_difference_clamped [of ?i "''original.mp4''" "''missing.mp4''"]
  note pct = t1 [THEN conjunct2, THEN conjunct2, THEN conjunct2, THEN conjunct1, rule_format]
  note size_pct = t1 [THEN conjunct2, THEN conjunct2, THEN conjunct2, THEN conjunct2,
                      THEN conjunct1, rule_format]
  have h100: "round64 100 = Finite 100" by code_simp
  have h50: "round64 50 = Finite 50" by code_simp
  have h20: "round64 20 = Finite 20" by code_simp
  have d1: "round64 (10 - 20) = Finite (- 10)" by code_simp
  have d2: "round64 (\<bar>- 10\<bar> / 10) = Finite 1" by code_simp
  have d: "float_diff_pct (Finite 10) (Finite 20) = Inr (Finite 100)"
    using pct [of 10 20 "- 10" 1] d1 d2 h100 by simp
  have s1: "round64 (of_int \<bar>int 1000 - int 1500\<bar> / of_int (int 1000)) = Finite (1 / 2)"
    by code_simp
  have s: "size_diff_pct 1000 1500 = Inr (Finite 50)"
    using size_pct [of 1000 1500 "1 / 2"] s1 h50 by simp
  have f1: "round64 (30 - 24) = Finite 6" by code_simp
  have f2: "round64 (\<bar>6\<bar> / 30) = Finite (3602879701896397 / 18014398509481984)"
    by code_simp
  have f3: "round64 (3602879701896397 / 18014398509481984 * 100) = Finite 20" by code_simp
  have f: "float_diff_pct (Finite 30) (Finite 24) = Inr (Finite 20)"
    using pct [of 30 24 6 "3602879701896397 / 18014398509481984"] f1 f2 f3 by simp
  have a: "int_truediv 1000 1024 = Inr (Finite (125 / 128))" by code_simp
  have b: "int_truediv 1500 1024 = Inr (Finite (375 / 256))" by code_simp
  have r: "py_round1 (py_max2 (Finite 1) (py_min2 (Finite 100)
             (fadd (fadd (fmul (Finite 100) (round64 (4 / 10))) (fmul (Finite 50) (round64 (3 / 10))))
                   (fmul (Finite 20) (round64 (3 / 10)))))) = Finite 61"
    by code_simp
  have "calculate_video_difference ?i ''original.mp4'' ''processed.mp4''
          = py_round1 (py_max2 (Finite 1) (py_min2 (Finite 100)
             (fadd (fadd (fmul (Finite 100) (round64 (4 / 10))) (fmul (Finite 50) (round64 (3 / 10))))
                   (fmul (Finite 20) (round64 (3 / 10))))))"
    by (rule t1 [THEN conjunct2, THEN conjunct2, THEN conjunct1, rule_format,
                 of "\<lparr>duration = Finite 10, fps = Finite 30, file_size = 1000\<rparr>"
                    "\<lparr>duration = Finite 20, fps = Finite 24, file_size = 1500\<rparr>"
                    "Finite 100" "Finite 50" "Finite 20" "Finite (125 / 128)" "Finite (375 / 256)"])
       (simp add: d s f a b)
  then have first_part: "calculate_video_difference ?i ''original.mp4'' ''processed.mp4'' = Finite 61"
    by (simp only: r)
  have second_part: "calculate_video_difference ?i ''original.mp4'' ''missing.mp4'' = Finite 3"
    by (rule t2 [THEN conjunct2, THEN conjunct1, rule_format, of OtherException]) simp
  show ?thesis
    using first_part d s f second_part by simp
qed


section \<open>The entry points contain every exception\<close>

lemma is_error_result_error_result: "is_error_result platform (error_result platform text)"
  by (simp add: is_error_result_def error_result_def)

lemma contained:
  "\<exists>r. fst (try_except m (\<lambda>e. returns (error_result platform (message c e)))) = Inr r
       \<and> (fails_or_error platform m \<longrightarrow> is_error_result platform r)"
  by (cases "fst m")
     (simp_all add: try_except_def returns_def fails_or_error_def is_error_result_error_result)

lemma foe_returns: "fails_or_error platform (returns (error_result platform text))"
  by (simp add: fails_or_error_def returns_def is_error_result_error_result)

lemma foe_try_method:
  assumes "failed (fst m)" and "fails_or_error platform rest"
  shows "fails_or_error platform (try_method m rest)"
  using assms
  by (cases "fst m")
     (simp_all add: fails_or_error_def try_method_def and_then_def lift_def failed_def
        has_no_error_def returns_def)

lemma foe_try_value:
  assumes "failed (fst m)" and "fails_or_error platform rest"
  shows "fails_or_error platform (try_value m build rest)"
  using assms
  by (cases "fst m")
     (simp_all add: fails_or_error_def try_value_def and_then_def failed_def returns_def)

lemma failed_calls: "all_fail c \<Longrightarrow> failed (fst (calls c m args))"
  by (simp add: all_fail_def calls_def)

lemma failed_stubs:
  "failed (fst (youtube_analytics_stats u))"
  "failed (fst (instagram_api_stats u))"
  "failed (fst (instagram_graph_stats u))"
  "failed (fst (tiktok_api_stats u))"
  by (simp_all add: failed_def youtube_analytics_stats_def instagram_api_stats_def
        instagram_graph_stats_def tiktok_api_stats_def noted_def returns_def)

lemmas foe = foe_returns foe_try_method foe_try_value failed_calls failed_stubs

lemma check_youtube_stats_contained:
  "\<exists>r. fst (check_youtube_stats c channel_url) = Inr r
       \<and> (all_fail c \<longrightarrow> is_error_result ''YouTube'' r)"
proof -
  have "fails_or_error ''YouTube''
     ((if truthy (api_key c ''youtube'')
         then try_method (calls c M_youtube_api_stats [VStr (ucs channel_url)])
         else (\<lambda>rest. rest))
          (try_method (calls c M_youtube_scraping_stats [VStr (ucs channel_url)])
             (try_method (youtube_analytics_stats channel_url)
                (returns (error_result ''YouTube'' all_methods_failed)))))"
    if "all_fail c"
    using that by (simp add: foe)
  then show ?thesis
    unfolding check_youtube_stats_def using contained by blast
qed

lemma get_youtube_short_data_contained:
  "\<exists>r. fst (get_youtube_short_data c short_url) = Inr r
       \<and> (all_fail c \<longrightarrow> is_error_result ''YouTube'' r)"
proof -
  have "fails_or_error ''YouTube''
       (case truthy_str (extract_youtube_video_id short_url) of
          None \<Rightarrow> returns (error_result ''YouTube'' (cannot_extract ''video ID z URL''))
        | Some video_id \<Rightarrow>
            (if truthy (api_key c ''youtube'')
             then try_value (calls c M_get_youtube_short_by_id [VStr (ucs video_id)])
                    (\<lambda>short_data.
                       VDict [(''platform'', VStr (ucs ''YouTube'')),
                              (''url'', VStr (ucs short_url)),
                              (''shorts'', VList [short_data]),
                              (''method'', VStr (ucs ''YouTube API''))])
             else (\<lambda>rest. rest))
              (try_value (calls c M_get_youtube_short_scraping [VStr (ucs short_url)])
                 (\<lambda>short_data.
                    VDict [(''platform'', VStr (ucs ''YouTube'')),
                           (''url'', VStr (ucs short_url)),
                           (''shorts'', VList [short_data]),
                           (''method'', VStr (ucs ''Scraping''))])
                 (returns (error_result ''YouTube'' (cannot_fetch (ucs ''danych short''))))))"
    if "all_fail c"
    using that by (simp add: foe split: option.split)
  then show ?thesis
    unfolding get_youtube_short_data_def using contained by blast
qed

lemma check_instagram_stats_contained:
  "\<exists>r. fst (check_instagram_stats c profile_url) = Inr r
       \<and> (all_fail c \<longrightarrow> is_error_result ''Instagram'' r)"
proof -
  have "fails_or_error ''Instagram''
       (case truthy_str (extract_instagram_username profile_url) of
          None \<Rightarrow> returns (error_result ''Instagram'' (cannot_extract ''username''))
        | Some username \<Rightarrow>
            (if truthy (api_key c ''instagram'')
             then try_method (instagram_api_stats username)
             else (\<lambda>rest. rest))
              (try_method (calls c M_instagram_scraping_stats [VStr (ucs username)])
                 (try_method (instagram_graph_stats username)
                    (returns (error_result ''Instagram'' all_methods_failed)))))"
    if "all_fail c"
    using that by (simp add: foe split: option.split)
  then show ?thesis
    unfolding check_instagram_stats_def using contained by blast
qed

lemma get_instagram_reel_data_contained:
  "\<exists>r. fst (get_instagram_reel_data c reel_url download_path) = Inr r
       \<and> (all_fail c \<longrightarrow> is_error_result ''Instagram'' r)"
proof -
  have "fails_or_error ''Instagram''
       (case truthy_str (extract_instagram_reel_id reel_url) of
          None \<Rightarrow> returns (error_result ''Instagram'' (cannot_extract ''reel ID z URL''))
        | Some reel_id \<Rightarrow>
            and_then
              (calls c M_download_instagram_reel_with_ytdlp [VStr (ucs reel_url), download_path])
              (\<lambda>video_path.
                 if truthy video_path
                 then returns
                        (VDict [(''platform'', VStr (ucs ''Instagram'')),
                                (''url'', VStr (ucs reel_url)),
                                (''reel_id'', VStr (ucs reel_id)),
                                (''video_path'', video_path),
                                (''method'', VStr (ucs ''yt-dlp'')),
                                (''reels'',
                                 VList [VDict [(''reel_id'', VStr (ucs reel_id)),
                                               (''url'', VStr (ucs reel_url)),
                                               (''video_path'', video_path)]])])
                 else returns (error_result ''Instagram'' (cannot_fetch (ucs ''video'')))))"
    if a: "all_fail c"
  proof (cases "truthy_str (extract_instagram_reel_id reel_url)")
    case None
    then show ?thesis by (simp add: foe)
  next
    case (Some reel_id)
    have "failed (fst (calls c M_download_instagram_reel_with_ytdlp
                         [VStr (ucs reel_url), download_path]))"
      using a by (rule failed_calls)
    then show ?thesis
      using Some
      by (cases "fst (calls c M_download_instagram_reel_with_ytdlp
                        [VStr (ucs reel_url), download_path])")
         (simp_all add: fails_or_error_def and_then_def failed_def returns_def
            is_error_result_error_result)
  qed
  then show ?thesis
    unfolding get_instagram_reel_data_def using contained by blast
qed

lemma check_tiktok_stats_contained:
  "\<exists>r. fst (check_tiktok_stats c profile_url) = Inr r
       \<and> (all_fail c \<longrightarrow> is_error_result ''TikTok'' r)"
proof -
  have "fails_or_error ''TikTok''
       (case truthy_str (extract_tiktok_username profile_url) of
          None \<Rightarrow> returns (error_result ''TikTok'' (cannot_extract ''username''))
        | Some username \<Rightarrow>
            (if truthy (api_key c ''tiktok'')
             then try_method (tiktok_api_stats username)
             else (\<lambda>rest. rest))
              (try_method (calls c M_tiktok_scraping_stats [VStr (ucs username)])
                 (returns (error_result ''TikTok'' all_methods_failed))))"
    if "all_fail c"
    using that by (simp add: foe split: option.split)
  then show ?thesis
    unfolding check_tiktok_stats_def using contained by blast
qed

lemma check_vk_stats_run:
  "check_vk_stats c profile_url = (Inr (error_result ''VK'' (message c AttributeError)), [])"
  by (simp add: check_vk_stats_def extract_vk_user_id_def try_except_def and_then_def
        raises_def returns_def)

lemma check_vk_stats_contained:
  "\<exists>r. fst (check_vk_stats c profile_url) = Inr r
       \<and> (all_fail c \<longrightarrow> is_error_result ''VK'' r)"
  by (simp add: check_vk_stats_run is_error_result_error_result)

lemma get_vk_clip_data_contained:
  "\<exists>r. fst (get_vk_clip_data c clip_url) = Inr r
       \<and> (all_fail c \<longrightarrow> is_error_result ''VK'' r)"
proof -
  have "fails_or_error ''VK''
       (case truthy_str (extract_vk_video_id clip_url) of
          None \<Rightarrow> returns (error_result ''VK'' (cannot_extract ''video ID z URL''))
        | Some video_id \<Rightarrow>
            (case truthy_str (extract_vk_owner_id clip_url) of
               None \<Rightarrow> returns (error_result ''VK'' (cannot_extract ''owner ID z URL''))
             | Some owner_id \<Rightarrow>
                 if truthy (api_key c ''vk'')
                 then and_then
                        (calls c M_get_vk_clip_by_id [VStr (ucs owner_id), VStr (ucs video_id)])
                        (\<lambda>clip_data.
                           if truthy clip_data
                           then returns
                                  (VDict [(''platform'', VStr (ucs ''VK'')),
                                          (''url'', VStr (ucs clip_url)),
                                          (''clips'', VList [clip_data]),
                                          (''method'', VStr (ucs ''VK API''))])
                           else returns (error_result ''VK'' vk_api_no_data))
                 else returns (error_result ''VK'' no_vk_api_key)))"
    if a: "all_fail c"
  proof -
    have "fails_or_error ''VK''
            (and_then (calls c M_get_vk_clip_by_id args)
               (\<lambda>clip_data.
                  if truthy clip_data then returns (build clip_data)
                  else returns (error_result ''VK'' vk_api_no_data)))" for args build
      using failed_calls [OF a, of M_get_vk_clip_by_id args]
      by (cases "fst (calls c M_get_vk_clip_by_id args)")
         (simp_all add: fails_or_error_def and_then_def failed_def returns_def
            is_error_result_error_result)
    then show ?thesis
      by (simp add: foe split: option.split)
  qed
  then show ?thesis
    unfolding get_vk_clip_data_def using contained by blast
qed

lemma check_likee_stats_contained:
  "\<exists>r. fst (check_likee_stats c profile_url) = Inr r
       \<and> (all_fail c \<longrightarrow> is_error_result ''Likee'' r)"
proof -
  have "fails_or_error ''Likee''
       (try_method (calls c M_likee_scraping_stats [VStr (ucs profile_url)])
          (returns (error_result ''Likee'' all_methods_failed)))"
    if "all_fail c"
    using that by (simp add: foe)
  then show ?thesis
    unfolding check_likee_stats_def using contained by blast
qed

text \<open>
  Claim C1. Each of the eight entry points returns a value for every checker and
  every URL: no exception leaves it. When every network method of the checker fails
  (raises or returns a false value), the value returned is a dictionary whose
  \<open>'platform'\<close> is the platform of the entry point and whose \<open>'error'\<close> is a string.
\<close>

theorem entry_points_contain_errors:
  "(\<exists>r. fst (check_youtube_stats c channel_url) = Inr r
        \<and> (all_fail c \<longrightarrow> is_error_result ''YouTube'' r))
   \<and> (\<exists>r. fst (check_instagram_stats c instagram_url) = Inr r
        \<and> (all_fail c \<longrightarrow> is_error_result ''Instagram'' r))
   \<and> (\<exists>r. fst (check_tiktok_stats c tiktok_url) = Inr r
        \<and> (all_fail c \<longrightarrow> is_error_result ''TikTok'' r))
   \<and> (\<exists>r. fst (check_vk_stats c vk_url) = Inr r
        \<and> (all_fail c \<longrightarrow> is_error_result ''VK'' r))
   \<and> (\<exists>r. fst (check_likee_stats c likee_url) = Inr r
        \<and> (all_fail c \<longrightarrow> is_error_result ''Likee'' r))
   \<and> (\<exists>r. fst (get_youtube_short_data c short_url) = Inr r
        \<and> (all_fail c \<longrightarrow> is_error_result ''YouTube'' r))
   \<and> (\<exists>r. fst (get_instagram_reel_data c reel_url download_path) = Inr r
        \<and> (all_fail c \<longrightarrow> is_error_result ''Instagram'' r))
   \<and> (\<exists>r. fst (get_vk_clip_data c clip_url) = Inr r
        \<and> (all_fail c \<longrightarrow> is_error_result ''VK'' r))"
  using check_youtube_stats_contained check_instagram_stats_contained
    check_tiktok_stats_contained check_vk_stats_contained check_likee_stats_contained
    get_youtube_short_data_contained get_instagram_reel_data_contained
    get_vk_clip_data_contained
  by (intro conjI)

theorem entry_points_contain_errors_witness:
  "all_fail offline_checker
   \<and> fst (check_youtube_stats offline_checker ''https://www.youtube.com/@nasa'')
       = Inr (error_result ''YouTube'' all_methods_failed)
   \<and> fst (check_instagram_stats offline_checker ''https://www.instagram.com/nasa/'')
       = Inr (error_result ''Instagram'' all_methods_failed)
   \<and> fst (check_tiktok_stats offline_checker ''https://www.tiktok.com/@nasa'')
       = Inr (error_result ''TikTok'' all_methods_failed)
   \<and> fst (check_vk_stats offline_checker ''https://vk.com/durov'')
       = Inr (error_result ''VK'' (ucs ''text of the exception''))
   \<and> fst (check_likee_stats offline_checker ''https://likee.video/@nasa'')
       = Inr (error_result ''Likee'' all_methods_failed)
   \<and> fst (get_youtube_short_data offline_checker ''https://www.youtube.com/shorts/dQw4w9WgXcQ'')
       = Inr (error_result ''YouTube'' (cannot_fetch (ucs ''danych short'')))
   \<and> fst (get_instagram_reel_data offline_checker
             ''https://www.instagram.com/reel/DNhNjlYsQR4/'' VNone)
       = Inr (error_result ''Instagram'' (cannot_fetch (ucs ''video'')))
   \<and> fst (get_vk_clip_data offline_checker
             ''https://vk.com/clips/id1069245351?feedType=ownerFeed&owner=1069245351&z=clip1069245351_456239137'')
       = Inr (error_result ''VK'' no_vk_api_key)
   \<and> is_error_result ''YouTube'' (error_result ''YouTube'' all_methods_failed)
   \<and> is_error_result ''VK'' (error_result ''VK'' no_vk_api_key)"
proof -
  have h: "all_fail offline_checker"
    by (simp add: all_fail_def offline_checker_def failed_def)
  have y: "fst (check_youtube_stats offline_checker ''https://www.youtube.com/@nasa'')
             = Inr (error_result ''YouTube'' all_methods_failed)"
    by code_simp
  have i: "fst (check_instagram_stats offline_checker ''https://www.instagram.com/nasa/'')
             = Inr (error_result ''Instagram'' all_methods_failed)"
    by code_simp
  have k: "fst (check_tiktok_stats offline_checker ''https://www.tiktok.com/@nasa'')
             = Inr (error_result ''TikTok'' all_methods_failed)"
    by code_simp
  have p: "fst (check_vk_stats offline_checker ''https://vk.com/durov'')
             = Inr (error_result ''VK'' (ucs ''text of the exception''))"
    by code_simp
  have l: "fst (check_likee_stats offline_checker ''https://likee.video/@nasa'')
             = Inr (error_result ''Likee'' all_methods_failed)"
    by code_simp
  have s: "fst (get_youtube_short_data offline_checker
                  ''https://www.youtube.com/shorts/dQw4w9WgXcQ'')
             = Inr (error_result ''YouTube'' (cannot_fetch (ucs ''danych short'')))"
    by code_simp
  have r: "fst (get_instagram_reel_data offline_checker
                  ''https://www.instagram.com/reel/DNhNjlYsQR4/'' VNone)
             = Inr (error_result ''Instagram'' (cannot_fetch (ucs ''video'')))"
    by code_simp
  have v: "fst (get_vk_clip_data offline_checker
             ''https://vk.com/clips/id1069245351?feedType=ownerFeed&owner=1069245351&z=clip1069245351_456239137'')
             = Inr (error_result ''VK'' no_vk_api_key)"
    by code_simp
  note t = entry_points_contain_errors
    [of offline_checker "''https://www.youtube.com/@nasa''" _ _ _ _ _ _ _
        "''https://vk.com/clips/id1069245351?feedType=ownerFeed&owner=1069245351&z=clip1069245351_456239137''"]
  have "is_error_result ''YouTube'' (error_result ''YouTube'' all_methods_failed)"
    using t [THEN conjunct1] h y by auto
  moreover have "is_error_result ''VK'' (error_result ''VK'' no_vk_api_key)"
    using t [THEN conjunct2, THEN conjunct2, THEN conjunct2, THEN conjunct2, THEN conjunct2,
             THEN conjunct2, THEN conjunct2] h v by auto
  ultimately show ?thesis
    using h y i k p l s r v by simp
qed


section \<open>Lookups without credentials\<close>

lemma calls_and_then: "set (snd m) \<subseteq> set (snd (and_then m f))"
  by (cases "fst m") (simp_all add: and_then_def)

lemma calls_try_except: "set (snd m) \<subseteq> set (snd (try_except m h))"
  by (cases "fst m") (simp_all add: try_except_def)

lemma calls_try_method: "set (snd m) \<subseteq> set (snd (try_method m rest))"
  unfolding try_method_def by (rule calls_and_then)

lemma calls_try_value: "set (snd m) \<subseteq> set (snd (try_value m build rest))"
  unfolding try_value_def by (rule calls_and_then)

lemma calls_calls: "(m, args) \<in> set (snd (calls c m args))"
  by (simp add: calls_def)

lemma no_key: "api_keys c = Map.empty \<Longrightarrow> \<not> truthy (api_key c name)"
  by (simp add: api_key_def)

lemma first_method_called:
  "(m, args) \<in> set (snd (try_except (try_method (calls c m args) rest) h))"
  using calls_calls calls_try_method calls_try_except by blast

lemma get_vk_clips_scraping_digits:
  assumes "api_keys c = Map.empty" and "py_isdigit user_id"
  shows "get_vk_clips_scraping c user_id profile_url
           = (Inr VNone, [(M_get_vk_clips_scraping, [VStr (ucs user_id), VStr (ucs profile_url)])])"
  using assms
  by (simp add: get_vk_clips_scraping_def no_key noted_def try_except_def returns_def)

lemma and_then_returns: "and_then (returns x) f = f x"
  by (simp add: and_then_def returns_def)

lemma get_vk_clips_scraping_requests:
  assumes "\<not> py_isdigit user_id" and "\<not> str_contains ''/clips/'' profile_url"
  shows "(M_make_request, [VStr (ucs profile_url)])
           \<in> set (snd (get_vk_clips_scraping c user_id profile_url))"
proof -
  let ?req = "(make_request c (ucs profile_url), [(M_make_request, [VStr (ucs profile_url)])])"
  have "(M_make_request, [VStr (ucs profile_url)]) \<in> set (snd ?req)" by simp
  then have "(M_make_request, [VStr (ucs profile_url)])
               \<in> set (snd (try_except (and_then ?req f) h))" for f h
    using calls_and_then calls_try_except by blast
  then show ?thesis
    using assms
    by (simp add: get_vk_clips_scraping_def noted_def and_then_returns)
qed

lemma get_vk_clips_scrapes:
  assumes "api_keys c = Map.empty"
  shows "(M_get_vk_clips_scraping, [VStr (ucs user_id), VStr (ucs profile_url)])
           \<in> set (snd (get_vk_clips c user_id profile_url))"
proof -
  have "(M_get_vk_clips_scraping, [VStr (ucs user_id), VStr (ucs profile_url)])
          \<in> set (snd (get_vk_clips_scraping c user_id profile_url))"
    by (simp add: get_vk_clips_scraping_def noted_def)
  then have "(M_get_vk_clips_scraping, [VStr (ucs user_id), VStr (ucs profile_url)])
          \<in> set (snd (try_except
                (try_value (get_vk_clips_scraping c user_id profile_url) build rest) h))"
    for build rest h
    using calls_try_value calls_try_except by blast
  then show ?thesis
    using assms by (simp add: get_vk_clips_def no_key noted_def)
qed

text \<open>
  Claim C6. With an empty credential dictionary the YouTube channel lookup and the
  Likee lookup call their scraping method, and so do the Instagram and the TikTok
  lookup on a URL that has a user name. The VK profile lookup does not:
  \<open>check_vk_stats\<close> calls a method that the class does not define, so it returns the
  error result with the text of the \<open>AttributeError\<close> and has called nothing.
  Behind it, \<open>_get_vk_clips\<close> does call its scraping method, which requests the
  profile page for a user name and returns \<open>None\<close> at once for a numeric id. The
  single-clip lookup returns the no-API-key error for a URL that has both ids.
\<close>

theorem credential_absence_lookups:
  assumes "api_keys c = Map.empty"
  shows
    "(M_youtube_scraping_stats, [VStr (ucs channel_url)])
       \<in> set (snd (check_youtube_stats c channel_url))
     \<and> (\<forall>username. truthy_str (extract_instagram_username instagram_url) = Some username
          \<longrightarrow> (M_instagram_scraping_stats, [VStr (ucs username)])
                \<in> set (snd (check_instagram_stats c instagram_url)))
     \<and> (\<forall>username. truthy_str (extract_tiktok_username tiktok_url) = Some username
          \<longrightarrow> (M_tiktok_scraping_stats, [VStr (ucs username)])
                \<in> set (snd (check_tiktok_stats c tiktok_url)))
     \<and> (M_likee_scraping_stats, [VStr (ucs likee_url)])
         \<in> set (snd (check_likee_stats c likee_url))
     \<and> check_vk_stats c vk_url = (Inr (error_result ''VK'' (message c AttributeError)), [])
     \<and> (M_get_vk_clips_scraping, [VStr (ucs user_id), VStr (ucs vk_url)])
         \<in> set (snd (get_vk_clips c user_id vk_url))
     \<and> (py_isdigit user_id
          \<longrightarrow> get_vk_clips_scraping c user_id vk_url
                = (Inr VNone, [(M_get_vk_clips_scraping, [VStr (ucs user_id), VStr (ucs vk_url)])]))
     \<and> (\<not> py_isdigit user_id \<and> \<not> str_contains ''/clips/'' vk_url
          \<longrightarrow> (M_make_request, [VStr (ucs vk_url)])
                \<in> set (snd (get_vk_clips_scraping c user_id vk_url)))
     \<and> (\<forall>video_id owner_id.
           truthy_str (extract_vk_video_id clip_url) = Some video_id
           \<and> truthy_str (extract_vk_owner_id clip_url) = Some owner_id
          \<longrightarrow> get_vk_clip_data c clip_url = (Inr (error_result ''VK'' no_vk_api_key), []))"
proof -
  have youtube: "(M_youtube_scraping_stats, [VStr (ucs channel_url)])
       \<in> set (snd (check_youtube_stats c channel_url))"
    using assms by (simp add: check_youtube_stats_def no_key first_method_called)
  have instagram: "(M_instagram_scraping_stats, [VStr (ucs username)])
                \<in> set (snd (check_instagram_stats c instagram_url))"
    if "truthy_str (extract_instagram_username instagram_url) = Some username" for username
    using assms that by (simp add: check_instagram_stats_def no_key first_method_called)
  have tiktok: "(M_tiktok_scraping_stats, [VStr (ucs username)])
                \<in> set (snd (check_tiktok_stats c tiktok_url))"
    if "truthy_str (extract_tiktok_username tiktok_url) = Some username" for username
    using assms that by (simp add: check_tiktok_stats_def no_key first_method_called)
  have likee: "(M_likee_scraping_stats, [VStr (ucs likee_url)])
         \<in> set (snd (check_likee_stats c likee_url))"
    by (simp add: check_likee_stats_def first_method_called)
  have clip: "get_vk_clip_data c clip_url = (Inr (error_result ''VK'' no_vk_api_key), [])"
    if "truthy_str (extract_vk_video_id clip_url) = Some video_id"
      "truthy_str (extract_vk_owner_id clip_url) = Some owner_id" for video_id owner_id
    using assms that
    by (simp add: get_vk_clip_data_def no_key try_except_def returns_def)
  show ?thesis
    using youtube instagram tiktok likee clip check_vk_stats_run [of c vk_url]
      get_vk_clips_scrapes [OF assms, of user_id vk_url]
      get_vk_clips_scraping_digits [OF assms, of user_id vk_url]
      get_vk_clips_scraping_requests [of user_id vk_url c]
    by blast
qed

theorem credential_absence_lookups_witness:
  "api_keys offline_checker = Map.empty
   \<and> (M_youtube_scraping_stats, [VStr (ucs ''https://www.youtube.com/@nasa'')])
       \<in> set (snd (check_youtube_stats offline_checker ''https://www.youtube.com/@nasa''))
   \<and> (M_instagram_scraping_stats, [VStr (ucs ''nasa'')])
       \<in> set (snd (check_instagram_stats offline_checker ''https://www.instagram.com/nasa/''))
   \<and> (M_tiktok_scraping_stats, [VStr (ucs ''nasa'')])
       \<in> set (snd (check_tiktok_stats offline_checker ''https://www.tiktok.com/@nasa''))
   \<and> (M_likee_scraping_stats, [VStr (ucs ''https://likee.video/@nasa'')])
       \<in> set (snd (check_likee_stats offline_checker ''https://likee.video/@nasa''))
   \<and> check_vk_stats offline_checker ''https://vk.com/durov''
       = (Inr (error_result ''VK'' (message offline_checker AttributeError)), [])
   \<and> get_vk_clips_scraping offline_checker ''1069245351'' ''https://vk.com/durov''
       = (Inr VNone,
          [(M_get_vk_clips_scraping,
            [VStr (ucs ''1069245351''), VStr (ucs ''https://vk.com/durov'')])])
   \<and> (M_make_request, [VStr (ucs ''https://vk.com/durov'')])
       \<in> set (snd (get_vk_clips_scraping offline_checker ''durov'' ''https://vk.com/durov''))
   \<and> get_vk_clip_data offline_checker
         ''https://vk.com/clips/id1069245351?feedType=ownerFeed&owner=1069245351&z=clip1069245351_456239137''
       = (Inr (error_result ''VK'' no_vk_api_key), [])"
proof -
  have k: "api_keys offline_checker = Map.empty"
    by (simp add: offline_checker_def)
  have i: "truthy_str (extract_instagram_username ''https://www.instagram.com/nasa/'')
             = Some ''nasa''"
    by code_simp
  have t: "truthy_str (extract_tiktok_username ''https://www.tiktok.com/@nasa'') = Some ''nasa''"
    by code_simp
  have d: "py_isdigit ''1069245351''"
    by code_simp
  have n: "\<not> py_isdigit ''durov''" "\<not> str_contains ''/clips/'' ''https://vk.com/durov''"
    by code_simp+
  have v: "truthy_str (extract_vk_video_id
             ''https://vk.com/clips/id1069245351?feedType=ownerFeed&owner=1069245351&z=clip1069245351_456239137'')
             = Some ''456239137''"
    by code_simp
  have w: "truthy_str (extract_vk_owner_id
             ''https://vk.com/clips/id1069245351?feedType=ownerFeed&owner=1069245351&z=clip1069245351_456239137'')
             = Some ''1069245351''"
    by code_simp
  note names = credential_absence_lookups
    [OF k, of "''https://www.youtube.com/@nasa''" "''https://www.instagram.com/nasa/''"
       "''https://www.tiktok.com/@nasa''" "''https://likee.video/@nasa''"
       "''https://vk.com/durov''" "''durov''"
       "''https://vk.com/clips/id1069245351?feedType=ownerFeed&owner=1069245351&z=clip1069245351_456239137''"]
  note numbers = credential_absence_lookups
    [OF k, of "''https://www.youtube.com/@nasa''" "''https://www.instagram.com/nasa/''"
       "''https://www.tiktok.com/@nasa''" "''https://likee.video/@nasa''"
       "''https://vk.com/durov''" "''1069245351''"
       "''https://vk.com/clips/id1069245351?feedType=ownerFeed&owner=1069245351&z=clip1069245351_456239137''"]
  show ?thesis
    using k i t d n v w names numbers by blast
qed

end
